theory Spec2Isabelle
  imports Main
begin

section \<open>Resources, editors and events\<close>

text \<open>
  The history service of the workbench (\<^verbatim>\<open>historyService.ts\<close>) keeps four bounded
  collections: the back/forward navigation stack with its cursor, the global editor
  history, the buffer of recently closed editors and the last edit location. This theory
  embeds the methods of the navigation stack, of the history, of recording and reopening
  a closed editor and of the last edit location, each as a function on an explicit
  service state. \<^verbatim>\<open>navigate()\<close> is embedded up to its \<^verbatim>\<open>await\<close> and its \<^verbatim>\<open>finally\<close>
  block is a step of its own; \<^verbatim>\<open>doReopenLastClosedEditor\<close> reads the outcome of its
  open from the collaborators. The cycling through recently used editors, the
  persistence of the history and the context keys write none of the collections above
  and are not embedded.
  What the service asks of its collaborators (the URI identity service, the lifecycle
  and file services, the editor groups, the selection objects of editor panes) is a
  parameter: a field of the record \<open>env\<close>, or a field of the value that owns the method.
\<close>

record URI =
  uri_scheme :: string
  uri_authority :: string
  uri_path :: "string list"

text \<open>
  Modelled from the spec: \<^verbatim>\<open>uriIdentityService.extUri\<close> is declared outside the
  service's file. \<^verbatim>\<open>isEqual\<close> is equality of resources, and
  \<^verbatim>\<open>isEqualOrParent(base, parentCandidate)\<close> holds when \<open>base\<close> equals
  \<open>parentCandidate\<close> or is a descendant of it (section 4.1 of the specification:
  "equals-or-is-a-descendant-of").
\<close>

definition extUri_isEqual :: "URI \<Rightarrow> URI \<Rightarrow> bool" where
  "extUri_isEqual a b = (a = b)"

definition extUri_isEqualOrParent :: "URI \<Rightarrow> URI \<Rightarrow> bool" where
  "extUri_isEqualOrParent base parentCandidate =
     (uri_scheme base = uri_scheme parentCandidate \<and>
      uri_authority base = uri_authority parentCandidate \<and>
      take (length (uri_path parentCandidate)) (uri_path base) = uri_path parentCandidate)"

text \<open>
  Modelled from the spec: the scheme constants of \<^verbatim>\<open>Schemas\<close> (local file, remote file,
  user-data store) are declared outside the service's file.
\<close>

definition Schemas_file :: string where
  "Schemas_file = ''file''"

definition Schemas_vscodeRemote :: string where
  "Schemas_vscodeRemote = ''vscode-remote''"

definition Schemas_userData :: string where
  "Schemas_userData = ''vscode-userdata''"

text \<open>
  Modelled from the spec: the enumerations of section 3 (the change reason of a selection
  event and the result of comparing two selections). The service names only
  \<open>NAVIGATION\<close>, \<open>EDIT\<close>, \<open>IDENTICAL\<close> and \<open>DIFFERENT\<close>.
\<close>

datatype EditorPaneSelectionChangeReason = USER | NAVIGATION | EDIT | UNKNOWN

datatype EditorPaneSelectionCompareResult = IDENTICAL | DIFFERENT | PARTIALLY_DIFFERENT

datatype FileChangeType = UPDATED | ADDED | DELETED

datatype FileOperation = CREATE | DELETE | MOVE | COPY | WRITE

text \<open>
  \<^verbatim>\<open>IResourceEditorInput\<close>: the serialisable descriptor of an editor, a resource and the
  \<^verbatim>\<open>override\<close> of its options.
\<close>

record IResourceEditorInput =
  ri_resource :: URI
  ri_override :: "string option"

text \<open>
  \<^verbatim>\<open>IUntypedEditorInput\<close>: what \<^verbatim>\<open>toUntyped()\<close> returns. \<^verbatim>\<open>isResourceEditorInput\<close>
  holds of the first constructor only; the others (diff, side by side, untitled) are
  told apart by a tag.
\<close>

datatype IUntypedEditorInput =
  ResourceInput IResourceEditorInput
| OtherUntypedInput nat

text \<open>
  \<^verbatim>\<open>EditorInput\<close>: a live editor handle. \<open>ei_ident\<close> is the identity of the object,
  \<open>ei_resource\<close> its \<^verbatim>\<open>resource\<close>, \<open>ei_toUntyped\<close> the result of \<^verbatim>\<open>toUntyped()\<close>.
\<close>

record EditorInput =
  ei_ident :: nat
  ei_resource :: "URI option"
  ei_editorId :: "string option"
  ei_toUntyped :: "IUntypedEditorInput option"

text \<open>
  Modelled from the spec: \<^verbatim>\<open>EditorInput.matches\<close> is owned by the handle; sections 4.1
  and 4.2 of the specification compare two live handles by identity.
\<close>

definition EditorInput_matches :: "EditorInput \<Rightarrow> EditorInput \<Rightarrow> bool" where
  "EditorInput_matches a b = (ei_ident a = ei_ident b)"

text \<open>The union \<^verbatim>\<open>EditorInput | IResourceEditorInput\<close> of a stack or history entry.\<close>

datatype editor_ref =
  Typed EditorInput
| Untyped IResourceEditorInput

text \<open>
  \<^verbatim>\<open>FileChangesEvent\<close> (the file watcher's batch): the service calls
  \<^verbatim>\<open>gotDeleted()\<close> and \<^verbatim>\<open>contains(resource, type)\<close>, both owned by the event.
\<close>

record FileChangesEvent =
  fce_gotDeleted :: bool
  fce_contains :: "URI \<Rightarrow> FileChangeType \<Rightarrow> bool"

text \<open>
  \<^verbatim>\<open>FileOperationEvent\<close>: an operation of the workbench on \<open>foe_resource\<close>; the target
  is its resource and its \<^verbatim>\<open>isFile\<close> flag.
\<close>

record FileOperationEvent =
  foe_operation :: FileOperation
  foe_resource :: URI
  foe_target :: "(URI \<times> bool) option"

text \<open>
  The first argument of \<^verbatim>\<open>matches\<close> and the second of \<^verbatim>\<open>matchesFile\<close>:
  \<^verbatim>\<open>EditorInput | IResourceEditorInput | FileChangesEvent | FileOperationEvent\<close>.
\<close>

datatype editor_or_event =
  OfEditor EditorInput
| OfResource IResourceEditorInput
| OfFileChanges FileChangesEvent
| OfFileOperation FileOperationEvent

fun of_ref :: "editor_ref \<Rightarrow> editor_or_event" where
  "of_ref (Typed e) = OfEditor e"
| "of_ref (Untyped r) = OfResource r"

text \<open>
  Modelled from the spec: \<^verbatim>\<open>EditorCloseContext\<close> and \<^verbatim>\<open>IEditorCloseEvent\<close> are declared
  outside the service's file; section 6 of the specification gives the close event as
  the closed editor, a context (normal, replace, move), the tab index and the sticky
  flag.
\<close>

datatype EditorCloseContext = CloseNORMAL | CloseREPLACE | CloseMOVE

record IEditorCloseEvent =
  ece_editor :: EditorInput
  ece_context :: EditorCloseContext
  ece_index :: int
  ece_sticky :: bool

section \<open>The service's collaborators and state\<close>

text \<open>A stack entry \<^verbatim>\<open>IEditorWithSelection\<close>; the selection type \<open>'s\<close> is opaque.\<close>

record 's IEditorWithSelection =
  ews_editor :: editor_ref
  ews_selection :: "'s option"

text \<open>The class \<^verbatim>\<open>EditorSelectionState\<close>: its three read-only fields.\<close>

record 's EditorSelectionState =
  ess_editor :: EditorInput
  ess_selection :: "'s option"
  ess_reason :: "EditorPaneSelectionChangeReason option"

text \<open>
  What the service reads from an editor pane: its input and whether that input is
  disposed, whether the pane has a selection concept (\<^verbatim>\<open>isEditorPaneWithSelection\<close>)
  and what \<^verbatim>\<open>getSelection()\<close> returns.
\<close>

record 's IEditorPane =
  pane_input :: "EditorInput option"
  pane_input_isDisposed :: bool
  pane_withSelection :: bool
  pane_getSelection :: "'s option"

text \<open>
  \<^verbatim>\<open>IRecentlyClosedEditor\<close>; \<open>rc_ident\<close> is the identity of the record object. The
  service creates every record by an object literal of its own, so the records of a
  buffer are distinct objects.
\<close>

record IRecentlyClosedEditor =
  rc_ident :: nat
  rc_editorId :: "string option"
  rc_editor :: IUntypedEditorInput
  rc_resource :: "URI option"
  rc_associatedResources :: "URI list"
  rc_index :: int
  rc_sticky :: bool

text \<open>
  A call of \<^verbatim>\<open>editorService.openEditor\<close>. \<open>NavigateTo\<close> is the request of
  \<^verbatim>\<open>doNavigate\<close>: the entry's editor with \<^verbatim>\<open>revealIfOpened: true\<close> and the entry's
  selection restored into the options. \<open>ReopenClosed\<close> is the request of
  \<^verbatim>\<open>doReopenLastClosedEditor\<close>: the untyped editor, pinned, with the sticky flag and
  the index kept in the options.
\<close>

datatype 's open_request =
  NavigateTo editor_ref "'s option"
| ReopenClosed IUntypedEditorInput bool "int option"

text \<open>
  The collaborators, as the service calls them: \<^verbatim>\<open>selection.compare(other)\<close>,
  \<^verbatim>\<open>lifecycleService.phase >= LifecyclePhase.Restored\<close>, \<^verbatim>\<open>fileService.hasProvider\<close>,
  \<^verbatim>\<open>pathService.defaultUriScheme\<close>, \<^verbatim>\<open>editorGroupService.isReady\<close>,
  \<^verbatim>\<open>editorService.getEditors(MOST_RECENTLY_ACTIVE)\<close>, the entries parsed from storage,
  the exclude matcher, the active group's \<^verbatim>\<open>isSticky\<close> and \<^verbatim>\<open>contains\<close>, and whether
  an \<^verbatim>\<open>openEditor\<close> call yields a pane. \<open>uri_toString\<close> is \<^verbatim>\<open>URI.toString()\<close>, the
  text of a resource. \<open>sideBySideEditorInput\<close> answers \<^verbatim>\<open>isSideBySideEditorInput(editor)\<close>:
  for a side-by-side editor it gives the editor's \<^verbatim>\<open>primary\<close> and \<^verbatim>\<open>secondary\<close> sides.
\<close>

record 's env =
  selection_compare :: "'s \<Rightarrow> 's \<Rightarrow> EditorPaneSelectionCompareResult"
  lifecycle_restored :: bool
  fileService_hasProvider :: "URI \<Rightarrow> bool"
  defaultUriScheme :: string
  editorGroupService_isReady :: bool
  editors_mostRecentlyActive :: "EditorInput list"
  storedEditorHistory :: "IResourceEditorInput list"
  resourceExcludeMatcher_matches :: "URI \<Rightarrow> bool"
  activeGroup_isSticky :: "int \<Rightarrow> bool"
  activeGroup_contains :: "IUntypedEditorInput \<Rightarrow> bool"
  openEditor_yieldsPane :: "'s open_request \<Rightarrow> bool"
  uri_toString :: "URI \<Rightarrow> string"
  sideBySideEditorInput :: "EditorInput \<Rightarrow> (EditorInput \<times> EditorInput) option"

text \<open>
  The fields of \<^verbatim>\<open>HistoryService\<close>. A listener map
  \<^verbatim>\<open>Map<EditorInput, DisposableStore>\<close> is the list of the identities that have a store.
  \<open>openEditorCalls\<close> logs the calls of \<^verbatim>\<open>editorService.openEditor\<close>, in order.
  The context keys are recomputed from these fields and are left out.
\<close>

record 's state =
  editorNavigationStack :: "'s IEditorWithSelection list"
  editorNavigationStackIndex :: int
  lastEditorNavigationStackIndex :: int
  navigatingInEditorStack :: bool
  currentEditorSelectionState :: "'s EditorSelectionState option"
  editorNavigationStackListeners :: "nat list"
  recentlyClosedEditors :: "IRecentlyClosedEditor list"
  ignoreEditorCloseEvent :: bool
  lastEditLocation :: "'s IEditorWithSelection option"
  history :: "editor_ref list option"
  editorHistoryListeners :: "nat list"
  openEditorCalls :: "'s open_request list"

definition initial_state :: "'s state" where
  "initial_state =
     \<lparr>editorNavigationStack = [], editorNavigationStackIndex = -1,
      lastEditorNavigationStackIndex = -1, navigatingInEditorStack = False,
      currentEditorSelectionState = None, editorNavigationStackListeners = [],
      recentlyClosedEditors = [], ignoreEditorCloseEvent = False,
      lastEditLocation = None, history = None, editorHistoryListeners = [],
      openEditorCalls = []\<rparr>"

definition MAX_EDITOR_NAVIGATION_STACK_ITEMS :: nat where
  "MAX_EDITOR_NAVIGATION_STACK_ITEMS = 50"

definition MAX_RECENTLY_CLOSED_EDITORS :: nat where
  "MAX_RECENTLY_CLOSED_EDITORS = 20"

definition MAX_HISTORY_ITEMS :: nat where
  "MAX_HISTORY_ITEMS = 200"

section \<open>The identity matcher\<close>

text \<open>
  \<^verbatim>\<open>matchesFile(resource, arg2)\<close>, case by case as the source tests \<open>arg2\<close>: a watcher
  event, a file operation, a live handle (no resource: no match; restored workbench and
  no provider for the handle's resource: no match), a descriptor.
\<close>

fun matchesFile :: "'s env \<Rightarrow> URI \<Rightarrow> editor_or_event \<Rightarrow> bool" where
  "matchesFile env resource (OfFileChanges ev) = fce_contains ev resource DELETED"
| "matchesFile env resource (OfFileOperation ev) =
     extUri_isEqualOrParent resource (foe_resource ev)"
| "matchesFile env resource (OfEditor e) =
     (case ei_resource e of
        None \<Rightarrow> False
      | Some inputResource \<Rightarrow>
          if lifecycle_restored env \<and> \<not> fileService_hasProvider env inputResource then False
          else extUri_isEqual inputResource resource)"
| "matchesFile env resource (OfResource r) = extUri_isEqual (ri_resource r) resource"

text \<open>\<^verbatim>\<open>matches(arg1, inputB)\<close>.\<close>

fun matches :: "'s env \<Rightarrow> editor_or_event \<Rightarrow> editor_ref \<Rightarrow> bool" where
  "matches env (OfFileChanges ev) (Typed b) = False"
| "matches env (OfFileChanges ev) (Untyped b) = fce_contains ev (ri_resource b) DELETED"
| "matches env (OfFileOperation ev) (Typed b) = False"
| "matches env (OfFileOperation ev) (Untyped b) =
     matchesFile env (ri_resource b) (OfFileOperation ev)"
| "matches env (OfEditor a) (Typed b) = EditorInput_matches a b"
| "matches env (OfEditor a) (Untyped b) = matchesFile env (ri_resource b) (OfEditor a)"
| "matches env (OfResource a) (Typed b) = matchesFile env (ri_resource a) (OfEditor b)"
| "matches env (OfResource a) (Untyped b) = extUri_isEqual (ri_resource a) (ri_resource b)"

section \<open>Listener maps\<close>

text \<open>
  \<^verbatim>\<open>onEditorDispose\<close> adds a subscription to the editor's store, creating the store
  when the map has none; \<^verbatim>\<open>clearOnEditorDispose\<close> disposes and deletes the store of a
  live handle and does nothing for any other argument.
\<close>

definition onEditorDispose :: "EditorInput \<Rightarrow> nat list \<Rightarrow> nat list" where
  "onEditorDispose editor mapEditorToDispose =
     (if ei_ident editor \<in> set mapEditorToDispose then mapEditorToDispose
      else mapEditorToDispose @ [ei_ident editor])"

fun clearOnEditorDispose :: "editor_or_event \<Rightarrow> nat list \<Rightarrow> nat list" where
  "clearOnEditorDispose (OfEditor e) mapEditorToDispose = removeAll (ei_ident e) mapEditorToDispose"
| "clearOnEditorDispose _ mapEditorToDispose = mapEditorToDispose"

section \<open>The navigation stack\<close>

text \<open>
  Reading a JavaScript array at an index: \<^verbatim>\<open>undefined\<close> outside the array.
  \<^verbatim>\<open>slice(0, end)\<close> and \<^verbatim>\<open>splice(start, 0, x)\<close> count a negative argument from
  the end of the array and clamp to its bounds.
\<close>

definition array_at :: "'a list \<Rightarrow> int \<Rightarrow> 'a option" where
  "array_at xs i = (if 0 \<le> i \<and> i < int (length xs) then Some (xs ! nat i) else None)"

definition array_slice0 :: "'a list \<Rightarrow> int \<Rightarrow> 'a list" where
  "array_slice0 xs e = take (nat (if e < 0 then int (length xs) + e else e)) xs"

definition array_splice_insert :: "'a list \<Rightarrow> int \<Rightarrow> 'a \<Rightarrow> 'a list" where
  "array_splice_insert xs start x =
     (let k = nat (if start < 0 then int (length xs) + start else start)
      in take k xs @ x # drop k xs)"

definition setIndex :: "'s state \<Rightarrow> int \<Rightarrow> 's state" where
  "setIndex st v =
     st\<lparr>lastEditorNavigationStackIndex := editorNavigationStackIndex st,
        editorNavigationStackIndex := v\<rparr>"

definition doNavigate :: "'s IEditorWithSelection \<Rightarrow> 's open_request" where
  "doNavigate location = NavigateTo (ews_editor location) (ews_selection location)"

text \<open>
  \<^verbatim>\<open>navigate()\<close> up to its \<^verbatim>\<open>await\<close>: the flag is set and the entry at the cursor is
  opened. The \<^verbatim>\<open>finally\<close> block runs when the open settles (\<open>navigate_finally\<close>);
  with no entry at the cursor \<^verbatim>\<open>doNavigate\<close> throws on reading the entry, nothing is
  opened and the \<^verbatim>\<open>finally\<close> block runs at once.
\<close>

definition navigate :: "'s state \<Rightarrow> 's state" where
  "navigate st =
     (case array_at (editorNavigationStack st) (editorNavigationStackIndex st) of
        None \<Rightarrow> st\<lparr>navigatingInEditorStack := False\<rparr>
      | Some location \<Rightarrow>
          st\<lparr>navigatingInEditorStack := True,
             openEditorCalls := openEditorCalls st @ [doNavigate location]\<rparr>)"

definition navigate_finally :: "'s state \<Rightarrow> 's state" where
  "navigate_finally st = st\<lparr>navigatingInEditorStack := False\<rparr>"

definition forward :: "'s state \<Rightarrow> 's state" where
  "forward st =
     (if int (length (editorNavigationStack st)) > editorNavigationStackIndex st + 1
      then navigate (setIndex st (editorNavigationStackIndex st + 1))
      else st)"

definition back_nav :: "'s state \<Rightarrow> 's state" where
  "back_nav st =
     (if editorNavigationStackIndex st > 0
      then navigate (setIndex st (editorNavigationStackIndex st - 1))
      else st)"

definition last_nav :: "'s state \<Rightarrow> 's state" where
  "last_nav st =
     (if lastEditorNavigationStackIndex st = -1 then back_nav st
      else navigate (setIndex st (lastEditorNavigationStackIndex st)))"

text \<open>
  Modelled from the spec: \<^verbatim>\<open>EditorResourceAccessor.getOriginalUri\<close> is declared outside
  the service's file; section 4.2 of the specification reads the scheme of the editor's
  resource.
\<close>

fun getOriginalUri :: "editor_ref \<Rightarrow> URI option" where
  "getOriginalUri (Typed e) = ei_resource e"
| "getOriginalUri (Untyped r) = Some (ri_resource r)"

definition hasValidResourceEditorInputScheme :: "'s env \<Rightarrow> URI option \<Rightarrow> bool" where
  "hasValidResourceEditorInputScheme env resource =
     (case resource of
        None \<Rightarrow> False
      | Some r \<Rightarrow>
          uri_scheme r = Schemas_file \<or> uri_scheme r = Schemas_vscodeRemote \<or>
          uri_scheme r = Schemas_userData \<or> uri_scheme r = defaultUriScheme env)"

definition preferResourceEditorInput :: "'s env \<Rightarrow> editor_ref \<Rightarrow> editor_ref option" where
  "preferResourceEditorInput env editor =
     (if hasValidResourceEditorInputScheme env (getOriginalUri editor) then
        (case editor of
           Typed e \<Rightarrow>
             (case ei_toUntyped e of
                Some (ResourceInput untypedInput) \<Rightarrow> Some (Untyped untypedInput)
              | _ \<Rightarrow> Some editor)
         | Untyped r \<Rightarrow> Some editor)
      else
        (case editor of
           Typed e \<Rightarrow> Some editor
         | Untyped r \<Rightarrow> None))"

definition shouldReplaceEditorPaneSelection ::
  "'s env \<Rightarrow> 's IEditorWithSelection \<Rightarrow> 's option \<Rightarrow> bool" where
  "shouldReplaceEditorPaneSelection env stackEntry newSelection =
     (case ews_selection stackEntry of
        None \<Rightarrow> True
      | Some s \<Rightarrow>
          (case newSelection of
             None \<Rightarrow> False
           | Some n \<Rightarrow> selection_compare env s n = IDENTICAL))"

text \<open>
  The decision of \<^verbatim>\<open>doAddOrReplaceInEditorNavigationStack\<close>: replace only where the
  cursor has an entry, and then when forced, or when that entry matches the editor and
  the selections say so.
\<close>

definition shouldReplaceStackEntry ::
  "'s env \<Rightarrow> 's state \<Rightarrow> editor_ref \<Rightarrow> 's option \<Rightarrow> bool \<Rightarrow> bool" where
  "shouldReplaceStackEntry env st editor selection forceReplace =
     (case array_at (editorNavigationStack st) (editorNavigationStackIndex st) of
        None \<Rightarrow> False
      | Some currentEntry \<Rightarrow>
          if forceReplace then True
          else matches env (of_ref (ews_editor currentEntry)) editor \<and>
               shouldReplaceEditorPaneSelection env currentEntry selection)"

text \<open>
  Replacing at the cursor: the state and the removed entries. The cursor has an entry
  whenever this branch runs.
\<close>

definition replaceAtIndex ::
  "'s state \<Rightarrow> 's IEditorWithSelection \<Rightarrow> 's state \<times> 's IEditorWithSelection list" where
  "replaceAtIndex st entry =
     (let stack = editorNavigationStack st; i = nat (editorNavigationStackIndex st)
      in (st\<lparr>editorNavigationStack := stack[i := entry]\<rparr>, [stack ! i]))"

text \<open>
  Adding after the cursor: entries beyond the cursor are removed, the entry is spliced in
  at cursor + 1, and past the limit the first entry is shifted out (the cursor stays, the
  last cursor goes down by one when it is not negative); otherwise the cursor moves on.
\<close>

definition addAfterIndex ::
  "'s state \<Rightarrow> 's IEditorWithSelection \<Rightarrow> 's state \<times> 's IEditorWithSelection list" where
  "addAfterIndex st entry =
     (let stack = editorNavigationStack st;
          i = editorNavigationStackIndex st;
          truncate = (int (length stack) > i + 1);
          removedBeyond = (if truncate then drop (nat (i + 1)) stack else []);
          stack1 = (if truncate then array_slice0 stack (i + 1) else stack);
          stack2 = array_splice_insert stack1 (i + 1) entry
      in if length stack2 > MAX_EDITOR_NAVIGATION_STACK_ITEMS then
           (st\<lparr>editorNavigationStack := tl stack2,
               lastEditorNavigationStackIndex :=
                 (if lastEditorNavigationStackIndex st \<ge> 0
                  then lastEditorNavigationStackIndex st - 1
                  else lastEditorNavigationStackIndex st)\<rparr>,
            removedBeyond @ [hd stack2])
         else (setIndex (st\<lparr>editorNavigationStack := stack2\<rparr>) (i + 1), removedBeyond))"

definition doAddOrReplaceInEditorNavigationStack ::
  "'s env \<Rightarrow> 's state \<Rightarrow> editor_ref \<Rightarrow> 's option \<Rightarrow> bool \<Rightarrow> 's state" where
  "doAddOrReplaceInEditorNavigationStack env st editor selection forceReplace =
     (let replace = shouldReplaceStackEntry env st editor selection forceReplace
      in case preferResourceEditorInput env editor of
           None \<Rightarrow> st
         | Some stackEditorInput \<Rightarrow>
             (let entry = \<lparr>ews_editor = stackEditorInput, ews_selection = selection\<rparr>;
                  (st1, removedEntries) =
                    (if replace then replaceAtIndex st entry else addAfterIndex st entry);
                  listeners1 =
                    foldl (\<lambda>m removedEntry. clearOnEditorDispose (of_ref (ews_editor removedEntry)) m)
                      (editorNavigationStackListeners st1) removedEntries;
                  listeners2 =
                    (case stackEditorInput of
                       Typed e \<Rightarrow> onEditorDispose e listeners1
                     | Untyped r \<Rightarrow> listeners1)
              in st1\<lparr>editorNavigationStackListeners := listeners2\<rparr>))"

definition addToEditorNavigationStack ::
  "'s env \<Rightarrow> 's state \<Rightarrow> editor_ref \<Rightarrow> 's option \<Rightarrow> 's state" where
  "addToEditorNavigationStack env st editor selection =
     (if \<not> navigatingInEditorStack st
      then doAddOrReplaceInEditorNavigationStack env st editor selection False
      else st)"

definition replaceInEditorNavigationStack ::
  "'s env \<Rightarrow> 's state \<Rightarrow> editor_ref \<Rightarrow> 's option \<Rightarrow> 's state" where
  "replaceInEditorNavigationStack env st editor selection =
     (if \<not> navigatingInEditorStack st
      then doAddOrReplaceInEditorNavigationStack env st editor selection True
      else st)"

definition justifiesNewNavigationEntry ::
  "'s env \<Rightarrow> 's EditorSelectionState \<Rightarrow> 's EditorSelectionState \<Rightarrow> bool" where
  "justifiesNewNavigationEntry env this other =
     (if ess_reason other = Some NAVIGATION then True
      else if \<not> EditorInput_matches (ess_editor this) (ess_editor other) then True
      else (case ess_selection this of
              None \<Rightarrow> True
            | Some thisSelection \<Rightarrow>
                (case ess_selection other of
                   None \<Rightarrow> True
                 | Some otherSelection \<Rightarrow>
                     selection_compare env otherSelection thisSelection = DIFFERENT)))"

text \<open>The event of a selection change carries its reason; the event itself is optional.\<close>

definition handleSelectionAwareEditorEventInEditorNavigationStack ::
  "'s env \<Rightarrow> 's state \<Rightarrow> 's IEditorPane \<Rightarrow> EditorInput \<Rightarrow>
   EditorPaneSelectionChangeReason option \<Rightarrow> 's state" where
  "handleSelectionAwareEditorEventInEditorNavigationStack env st editorPane editor event =
     (let stateCandidate =
            \<lparr>ess_editor = editor, ess_selection = pane_getSelection editorPane,
             ess_reason = event\<rparr>;
          st1 =
            (if (case currentEditorSelectionState st of
                   None \<Rightarrow> True
                 | Some current \<Rightarrow> justifiesNewNavigationEntry env current stateCandidate)
             then addToEditorNavigationStack env st (Typed editor) (ess_selection stateCandidate)
             else replaceInEditorNavigationStack env st (Typed editor) (ess_selection stateCandidate))
      in st1\<lparr>currentEditorSelectionState := Some stateCandidate\<rparr>)"

definition handleNonSelectionAwareEditorEventInEditorNavigationStack ::
  "'s env \<Rightarrow> 's state \<Rightarrow> 's IEditorPane \<Rightarrow> 's state" where
  "handleNonSelectionAwareEditorEventInEditorNavigationStack env st editorPane =
     (case pane_input editorPane of
        None \<Rightarrow> st
      | Some input \<Rightarrow>
          (case array_at (editorNavigationStack st) (editorNavigationStackIndex st) of
             Some currentStack \<Rightarrow>
               if matches env (OfEditor input) (ews_editor currentStack) then st
               else addToEditorNavigationStack env st (Typed input) None
           | None \<Rightarrow> addToEditorNavigationStack env st (Typed input) None))"

text \<open>
  \<^verbatim>\<open>editorPane?.input && !editorPane.input.isDisposed()\<close>: the pane's live input.
\<close>

definition liveInput :: "'s IEditorPane option \<Rightarrow> EditorInput option" where
  "liveInput editorPane =
     (case editorPane of
        None \<Rightarrow> None
      | Some p \<Rightarrow>
          (case pane_input p of
             None \<Rightarrow> None
           | Some input \<Rightarrow> if pane_input_isDisposed p then None else Some input))"

definition handleEventInEditorNavigationStack ::
  "'s env \<Rightarrow> 's state \<Rightarrow> 's IEditorPane option \<Rightarrow>
   EditorPaneSelectionChangeReason option \<Rightarrow> 's state" where
  "handleEventInEditorNavigationStack env st editorPane event =
     (let isSelectionAwareEditorPane =
            (case editorPane of None \<Rightarrow> False | Some p \<Rightarrow> pane_withSelection p)
      in if navigatingInEditorStack st then
           (case (editorPane, liveInput editorPane) of
              (Some p, Some input) \<Rightarrow>
                if isSelectionAwareEditorPane then
                  st\<lparr>currentEditorSelectionState :=
                       Some \<lparr>ess_editor = input, ess_selection = pane_getSelection p,
                             ess_reason = event\<rparr>\<rparr>
                else st\<lparr>currentEditorSelectionState := None\<rparr>
            | _ \<Rightarrow> st\<lparr>currentEditorSelectionState := None\<rparr>)
         else
           (case (editorPane, liveInput editorPane) of
              (Some p, Some input) \<Rightarrow>
                if isSelectionAwareEditorPane then
                  handleSelectionAwareEditorEventInEditorNavigationStack env st p input event
                else
                  handleNonSelectionAwareEditorEventInEditorNavigationStack env
                    (st\<lparr>currentEditorSelectionState := None\<rparr>) p
            | _ \<Rightarrow> st\<lparr>currentEditorSelectionState := None\<rparr>))"

text \<open>
  \<^verbatim>\<open>removeFromEditorNavigationStack\<close>: whether an entry was removed, and the state.
\<close>

definition removeFromEditorNavigationStack ::
  "'s env \<Rightarrow> 's state \<Rightarrow> editor_or_event \<Rightarrow> bool \<times> 's state" where
  "removeFromEditorNavigationStack env st arg1 =
     (let stack = editorNavigationStack st;
          kept = filter (\<lambda>entry. \<not> matches env arg1 (ews_editor entry)) stack;
          removed = list_ex (\<lambda>entry. matches env arg1 (ews_editor entry)) stack
      in (removed,
          st\<lparr>editorNavigationStack := kept,
             editorNavigationStackListeners :=
               (if removed then clearOnEditorDispose arg1 (editorNavigationStackListeners st)
                else editorNavigationStackListeners st),
             editorNavigationStackIndex := int (length kept) - 1,
             lastEditorNavigationStackIndex := -1\<rparr>))"

definition moveInEditorNavigationStack ::
  "'s env \<Rightarrow> 's state \<Rightarrow> FileOperationEvent \<Rightarrow> 's state" where
  "moveInEditorNavigationStack env st event =
     (let (removed, st1) = removeFromEditorNavigationStack env st (OfFileOperation event)
      in case foe_target event of
           Some (targetResource, isFile) \<Rightarrow>
             if removed
             then addToEditorNavigationStack env st1
                    (Untyped \<lparr>ri_resource = targetResource, ri_override = None\<rparr>) None
             else st1
         | None \<Rightarrow> st1)"

section \<open>The global history\<close>

definition includeInHistory :: "'s env \<Rightarrow> editor_ref \<Rightarrow> bool" where
  "includeInHistory env editor =
     (case editor of
        Typed e \<Rightarrow> True
      | Untyped r \<Rightarrow> \<not> resourceExcludeMatcher_matches env (ri_resource r))"

text \<open>
  \<^verbatim>\<open>addToHistory\<close> after its call of \<^verbatim>\<open>ensureHistoryLoaded\<close>: the entry goes to the
  front (or to the end), one entry past the limit is popped from the end and its listener
  cleared, and a live handle gets its disposal listener.
\<close>

definition addToLoadedHistory ::
  "'s env \<Rightarrow> 's state \<Rightarrow> editor_ref \<Rightarrow> bool \<Rightarrow> 's state" where
  "addToLoadedHistory env st editor insertFirst =
     (case preferResourceEditorInput env editor of
        None \<Rightarrow> st
      | Some historyInput \<Rightarrow>
          (let h = (case history st of None \<Rightarrow> [] | Some entries \<Rightarrow> entries);
               h1 = (if insertFirst then historyInput # h else h @ [historyInput]);
               over = (length h1 > MAX_HISTORY_ITEMS);
               h2 = (if over then butlast h1 else h1);
               listeners1 =
                 (if over
                  then clearOnEditorDispose (of_ref (last h1)) (editorHistoryListeners st)
                  else editorHistoryListeners st);
               listeners2 =
                 (case historyInput of
                    Typed e \<Rightarrow> onEditorDispose e listeners1
                  | Untyped r \<Rightarrow> listeners1)
           in st\<lparr>history := Some h2, editorHistoryListeners := listeners2\<rparr>))"

text \<open>
  The key of \<^verbatim>\<open>handledEditors\<close>, the string of the template
  \<^verbatim>\<open>`${resource.toString()}/${editorId}`\<close>: the text of the resource, a slash and the
  editor identifier, which the template prints as \<^verbatim>\<open>undefined\<close> when there is none.
\<close>

definition handledKey :: "'s env \<Rightarrow> URI \<Rightarrow> string option \<Rightarrow> string" where
  "handledKey env resource ident =
     uri_toString env resource @ ''/'' @ (case ident of None \<Rightarrow> ''undefined'' | Some i \<Rightarrow> i)"

text \<open>
  \<^verbatim>\<open>loadHistory\<close>: the opened editors from least to most recently used, each added at
  the front, then the stored entries whose key was not handled, each added at the end.
  Its calls of \<^verbatim>\<open>addToHistory\<close> find the history already set.
\<close>

definition loadHistory :: "'s env \<Rightarrow> 's state \<Rightarrow> 's state" where
  "loadHistory env st =
     (let st0 = st\<lparr>history := Some []\<rparr>;
          openedEditorsLru = rev (editors_mostRecentlyActive env);
          (st1, handledEditors) =
            foldl
              (\<lambda>(s, handled) editor.
                 if \<not> includeInHistory env (Typed editor) then (s, handled)
                 else (addToLoadedHistory env s (Typed editor) True,
                       (case ei_resource editor of
                          None \<Rightarrow> handled
                        | Some r \<Rightarrow> handled @ [handledKey env r (ei_editorId editor)])))
              (st0, []) openedEditorsLru
      in foldl
           (\<lambda>s editor.
              if handledKey env (ri_resource editor) (ri_override editor) \<notin> set handledEditors
              then addToLoadedHistory env s (Untyped editor) False
              else s)
           st1 (storedEditorHistory env))"

text \<open>
  \<^verbatim>\<open>ensureHistoryLoaded\<close>: an unset history becomes empty and, when the editor groups
  are ready, is loaded at once (otherwise \<open>loadHistory\<close> runs when they are).
\<close>

definition ensureHistoryLoaded :: "'s env \<Rightarrow> 's state \<Rightarrow> 's state" where
  "ensureHistoryLoaded env st =
     (case history st of
        Some entries \<Rightarrow> st
      | None \<Rightarrow>
          if editorGroupService_isReady env then loadHistory env (st\<lparr>history := Some []\<rparr>)
          else st\<lparr>history := Some []\<rparr>)"


definition addToHistory :: "'s env \<Rightarrow> 's state \<Rightarrow> editor_ref \<Rightarrow> bool \<Rightarrow> 's state" where
  "addToHistory env st editor insertFirst =
     addToLoadedHistory env (ensureHistoryLoaded env st) editor insertFirst"

definition removeFromHistory ::
  "'s env \<Rightarrow> 's state \<Rightarrow> editor_or_event \<Rightarrow> bool \<times> 's state" where
  "removeFromHistory env st arg1 =
     (let st1 = ensureHistoryLoaded env st;
          h = (case history st1 of None \<Rightarrow> [] | Some entries \<Rightarrow> entries);
          removed = list_ex (\<lambda>entry. matches env arg1 entry) h
      in (removed,
          st1\<lparr>history := Some (filter (\<lambda>entry. \<not> matches env arg1 entry) h),
              editorHistoryListeners :=
                (if removed then clearOnEditorDispose arg1 (editorHistoryListeners st1)
                 else editorHistoryListeners st1)\<rparr>))"

definition handleEditorEventInHistory ::
  "'s env \<Rightarrow> 's state \<Rightarrow> 's IEditorPane option \<Rightarrow> 's state" where
  "handleEditorEventInHistory env st editorPane =
     (case liveInput editorPane of
        None \<Rightarrow> st
      | Some editor \<Rightarrow>
          if \<not> includeInHistory env (Typed editor) then st
          else addToHistory env (snd (removeFromHistory env st (OfEditor editor)))
                 (Typed editor) True)"

definition moveInHistory :: "'s env \<Rightarrow> 's state \<Rightarrow> FileOperationEvent \<Rightarrow> 's state" where
  "moveInHistory env st event =
     (let (removed, st1) = removeFromHistory env st (OfFileOperation event)
      in case foe_target event of
           Some (targetResource, isFile) \<Rightarrow>
             if removed
             then addToHistory env st1
                    (Untyped \<lparr>ri_resource = targetResource, ri_override = None\<rparr>) True
             else st1
         | None \<Rightarrow> st1)"

text \<open>
  \<^verbatim>\<open>replaceInHistory(editor, ...replacements)\<close>: the loop over the history keeps the new
  list, whether the replacements went in, and the listener map. A matching entry is
  dropped (the first one gives its place to the replacements), any other entry is kept
  unless a replacement matches it, and replacements that found no place go to the end.
\<close>

definition replaceInHistory ::
  "'s env \<Rightarrow> 's state \<Rightarrow> editor_ref \<Rightarrow> editor_ref list \<Rightarrow> 's state" where
  "replaceInHistory env st editor replacements =
     (let st1 = ensureHistoryLoaded env st;
          h = (case history st1 of None \<Rightarrow> [] | Some entries \<Rightarrow> entries);
          (newHistory, replaced, listeners) =
            foldl
              (\<lambda>(newHistory, replaced, listeners) entry.
                 if matches env (of_ref editor) entry then
                   ((if \<not> replaced then newHistory @ replacements else newHistory), True,
                    clearOnEditorDispose (of_ref editor) listeners)
                 else if \<not> list_ex (\<lambda>replacement. matches env (of_ref replacement) entry)
                             replacements
                 then (newHistory @ [entry], replaced, listeners)
                 else (newHistory, replaced, listeners))
              ([], False, editorHistoryListeners st1) h
      in st1\<lparr>history := Some (if \<not> replaced then newHistory @ replacements else newHistory),
             editorHistoryListeners := listeners\<rparr>)"

text \<open>
  \<^verbatim>\<open>updateHistoryOnEditorDispose\<close>, the disposal listener of a history entry: an editor
  that is not side by side is removed; a side-by-side editor is replaced by the resource
  inputs that \<^verbatim>\<open>preferResourceEditorInput\<close> has for its sides (one side when the primary
  matches the secondary).
\<close>

definition updateHistoryOnEditorDispose :: "'s env \<Rightarrow> 's state \<Rightarrow> EditorInput \<Rightarrow> 's state" where
  "updateHistoryOnEditorDispose env st editor =
     (case sideBySideEditorInput env editor of
        None \<Rightarrow> snd (removeFromHistory env st (OfEditor editor))
      | Some (primary, secondary) \<Rightarrow>
          (let sideInputs =
                 (if EditorInput_matches primary secondary then [primary]
                  else [primary, secondary]);
               resourceInputs =
                 concat
                   (map (\<lambda>sideInput.
                           case preferResourceEditorInput env (Typed sideInput) of
                             Some (Untyped candidateResourceInput) \<Rightarrow>
                               [Untyped candidateResourceInput]
                           | _ \<Rightarrow> [])
                      sideInputs)
           in replaceInHistory env st (Typed editor) resourceInputs))"

text \<open>
  \<^verbatim>\<open>removeExcludedFromHistory\<close>, the listener of the exclude matcher: the entries that
  are no longer included are dropped and their listeners cleared.
\<close>

definition removeExcludedFromHistory :: "'s env \<Rightarrow> 's state \<Rightarrow> 's state" where
  "removeExcludedFromHistory env st =
     (let st1 = ensureHistoryLoaded env st;
          h = (case history st1 of None \<Rightarrow> [] | Some entries \<Rightarrow> entries)
      in st1\<lparr>history := Some (filter (includeInHistory env) h),
             editorHistoryListeners :=
               foldl (\<lambda>listeners entry. clearOnEditorDispose (of_ref entry) listeners)
                 (editorHistoryListeners st1)
                 (filter (\<lambda>entry. \<not> includeInHistory env entry) h)\<rparr>)"

definition clearRecentlyOpened :: "'s state \<Rightarrow> 's state" where
  "clearRecentlyOpened st = st\<lparr>history := Some [], editorHistoryListeners := []\<rparr>"

section \<open>Recently closed editors and the last edit location\<close>

definition removeFromRecentlyClosedEditors ::
  "'s env \<Rightarrow> 's state \<Rightarrow> editor_or_event \<Rightarrow> 's state" where
  "removeFromRecentlyClosedEditors env st arg1 =
     st\<lparr>recentlyClosedEditors :=
          filter
            (\<lambda>recentlyClosedEditor.
               if (case arg1 of
                     OfEditor e \<Rightarrow> rc_editorId recentlyClosedEditor \<noteq> ei_editorId e
                   | _ \<Rightarrow> False)
               then True
               else if (case rc_resource recentlyClosedEditor of
                          None \<Rightarrow> False
                        | Some r \<Rightarrow> matchesFile env r arg1)
               then False
               else if list_ex (\<lambda>associatedResource. matchesFile env associatedResource arg1)
                         (rc_associatedResources recentlyClosedEditor)
               then False
               else True)
            (recentlyClosedEditors st)\<rparr>"

text \<open>
  Modelled from the spec: \<^verbatim>\<open>EditorResourceAccessor.getOriginalUri\<close> with the option
  \<^verbatim>\<open>supportSideBySide: SideBySideEditor.BOTH\<close> is declared outside the service's file.
  For a side-by-side editor it gives the resources of both sides, for any other editor
  the editor's resource (section 4.4 of the specification: "all associated resources
  (both sides for a composite/side-by-side editor)").
\<close>

definition getOriginalUri_bothSides ::
  "'s env \<Rightarrow> EditorInput \<Rightarrow> (URI + URI option \<times> URI option) option" where
  "getOriginalUri_bothSides env editor =
     (case sideBySideEditorInput env editor of
        Some (primary, secondary) \<Rightarrow> Some (Inr (ei_resource primary, ei_resource secondary))
      | None \<Rightarrow> map_option Inl (ei_resource editor))"

text \<open>\<^verbatim>\<open>coalesce\<close> of the array helpers drops the undefined elements.\<close>

definition coalesce :: "'a option list \<Rightarrow> 'a list" where
  "coalesce xs = concat (map (\<lambda>x. case x of None \<Rightarrow> [] | Some v \<Rightarrow> [v]) xs)"

text \<open>
  \<^verbatim>\<open>onDidCloseEditor\<close> records a closed editor: not while close events are ignored, not
  for a replaced or moved editor, not for an editor without an untyped form. The records
  that match the editor are removed, the new record is pushed, and past the limit the
  first record is shifted out. The record is a new object: \<open>newRecord\<close> is its identity.
\<close>

definition onDidCloseEditor ::
  "'s env \<Rightarrow> 's state \<Rightarrow> IEditorCloseEvent \<Rightarrow> nat \<Rightarrow> 's state" where
  "onDidCloseEditor env st event newRecord =
     (if ignoreEditorCloseEvent st then st
      else if ece_context event = CloseREPLACE \<or> ece_context event = CloseMOVE then st
      else
        (case ei_toUntyped (ece_editor event) of
           None \<Rightarrow> st
         | Some untypedEditor \<Rightarrow>
             (let associatedResources =
                    (case getOriginalUri_bothSides env (ece_editor event) of
                       None \<Rightarrow> []
                     | Some (Inl editorResource) \<Rightarrow> [editorResource]
                     | Some (Inr (primary, secondary)) \<Rightarrow> coalesce [primary, secondary]);
                  st1 = removeFromRecentlyClosedEditors env st (OfEditor (ece_editor event));
                  records =
                    recentlyClosedEditors st1 @
                    [\<lparr>rc_ident = newRecord,
                      rc_editorId = ei_editorId (ece_editor event),
                      rc_editor = untypedEditor,
                      rc_resource = getOriginalUri (Typed (ece_editor event)),
                      rc_associatedResources = associatedResources,
                      rc_index = ece_index event,
                      rc_sticky = ece_sticky event\<rparr>]
              in st1\<lparr>recentlyClosedEditors :=
                       (if length records > MAX_RECENTLY_CLOSED_EDITORS then tl records
                        else records)\<rparr>)))"

text \<open>
  \<^verbatim>\<open>remove(array, element)\<close> of the array helpers deletes the first occurrence of the
  object, found by identity.
\<close>

fun array_remove :: "IRecentlyClosedEditor list \<Rightarrow> IRecentlyClosedEditor \<Rightarrow> IRecentlyClosedEditor list" where
  "array_remove [] element = []"
| "array_remove (x # xs) element =
     (if rc_ident x = rc_ident element then xs else x # array_remove xs element)"

text \<open>
  The options of a reopen: the recorded index is dropped when the recorded sticky flag
  disagrees with the active group's sticky state at that index.
\<close>

definition reopenRequest :: "'s env \<Rightarrow> IRecentlyClosedEditor \<Rightarrow> 's open_request" where
  "reopenRequest env lastClosedEditor =
     ReopenClosed (rc_editor lastClosedEditor) (rc_sticky lastClosedEditor)
       (if (rc_sticky lastClosedEditor \<and> \<not> activeGroup_isSticky env (rc_index lastClosedEditor)) \<or>
           (\<not> rc_sticky lastClosedEditor \<and> activeGroup_isSticky env (rc_index lastClosedEditor))
        then None
        else Some (rc_index lastClosedEditor))"

text \<open>
  \<^verbatim>\<open>reopenLastClosedEditor\<close> pops the last record and hands it to
  \<^verbatim>\<open>doReopenLastClosedEditor\<close>, which opens it unless the active group contains it
  (the close events of the open are ignored while it runs) and, when no pane came of it,
  removes the record and calls \<^verbatim>\<open>reopenLastClosedEditor\<close> again.
\<close>

function reopenLastClosedEditor :: "'s env \<Rightarrow> 's state \<Rightarrow> 's state"
  and doReopenLastClosedEditor :: "'s env \<Rightarrow> 's state \<Rightarrow> IRecentlyClosedEditor \<Rightarrow> 's state" where
  "reopenLastClosedEditor env st =
     (if recentlyClosedEditors st = [] then st
      else doReopenLastClosedEditor env
             (st\<lparr>recentlyClosedEditors := butlast (recentlyClosedEditors st)\<rparr>)
             (last (recentlyClosedEditors st)))"
| "doReopenLastClosedEditor env st lastClosedEditor =
     (let contained = activeGroup_contains env (rc_editor lastClosedEditor);
          st1 =
            (if contained then st
             else st\<lparr>ignoreEditorCloseEvent := False,
                    openEditorCalls :=
                      openEditorCalls st @ [reopenRequest env lastClosedEditor]\<rparr>);
          editorPane =
            (\<not> contained \<and> openEditor_yieldsPane env (reopenRequest env lastClosedEditor))
      in if \<not> editorPane
         then reopenLastClosedEditor env
                (st1\<lparr>recentlyClosedEditors :=
                      array_remove (recentlyClosedEditors st1) lastClosedEditor\<rparr>)
         else st1)"
  by pat_completeness auto

termination
proof (relation "measure (\<lambda>x. case x of
            Inl (env, st) \<Rightarrow> 2 * length (recentlyClosedEditors st)
          | Inr (env, st, r) \<Rightarrow> 2 * length (recentlyClosedEditors st) + 1)", goal_cases)
  case 1
  show ?case by simp
next
  case (2 env st)
  then show ?case by (cases "recentlyClosedEditors st") auto
next
  case (3 env st lastClosedEditor contained st1 editorPane)
  have len: "length (array_remove xs x) \<le> length xs" for xs x
    by (induction xs) auto
  from 3 show ?case by (auto simp: len le_imp_less_Suc)
qed

declare reopenLastClosedEditor.simps [simp del] doReopenLastClosedEditor.simps [simp del]

text \<open>
  \<^verbatim>\<open>rememberLastEditLocation\<close> stores the pane's live input with the pane's selection,
  if the pane has one; \<^verbatim>\<open>openLastEditLocation\<close> opens what is stored.
\<close>

definition rememberLastEditLocation :: "'s state \<Rightarrow> 's IEditorPane \<Rightarrow> 's state" where
  "rememberLastEditLocation st editorPane =
     (case liveInput (Some editorPane) of
        None \<Rightarrow> st
      | Some editor \<Rightarrow>
          st\<lparr>lastEditLocation :=
               Some \<lparr>ews_editor = Typed editor,
                     ews_selection =
                       (if pane_withSelection editorPane then pane_getSelection editorPane
                        else None)\<rparr>\<rparr>)"

definition openLastEditLocation :: "'s state \<Rightarrow> 's state" where
  "openLastEditLocation st =
     (case lastEditLocation st of
        None \<Rightarrow> st
      | Some location \<Rightarrow> st\<lparr>openEditorCalls := openEditorCalls st @ [doNavigate location]\<rparr>)"

section \<open>Handlers over all collections\<close>

text \<open>
  \<^verbatim>\<open>clear()\<close>: the history and its listeners, the navigation stack with both cursors
  and its listeners, and the recently closed editors.
\<close>

definition clear :: "'s state \<Rightarrow> 's state" where
  "clear st =
     (clearRecentlyOpened st)
       \<lparr>editorNavigationStackIndex := -1,
        lastEditorNavigationStackIndex := -1,
        editorNavigationStack := [],
        editorNavigationStackListeners := [],
        recentlyClosedEditors := []\<rparr>"

text \<open>
  \<^verbatim>\<open>remove(arg1)\<close> and \<^verbatim>\<open>move(event)\<close>; the list of recently opened workspaces
  belongs to another service and is left out.
\<close>

definition remove_arg :: "'s env \<Rightarrow> 's state \<Rightarrow> editor_or_event \<Rightarrow> 's state" where
  "remove_arg env st arg1 =
     (let st1 = snd (removeFromHistory env st arg1);
          st2 = snd (removeFromEditorNavigationStack env st1 arg1)
      in removeFromRecentlyClosedEditors env st2 arg1)"

definition move :: "'s env \<Rightarrow> 's state \<Rightarrow> FileOperationEvent \<Rightarrow> 's state" where
  "move env st event = moveInEditorNavigationStack env (moveInHistory env st event) event"

fun onDidFilesChange :: "'s env \<Rightarrow> 's state \<Rightarrow> editor_or_event \<Rightarrow> 's state" where
  "onDidFilesChange env st (OfFileChanges event) =
     (if fce_gotDeleted event then remove_arg env st (OfFileChanges event) else st)"
| "onDidFilesChange env st (OfFileOperation event) =
     (if foe_operation event = DELETE then remove_arg env st (OfFileOperation event)
      else if foe_operation event = MOVE \<and>
              (case foe_target event of None \<Rightarrow> False | Some (targetResource, isFile) \<Rightarrow> isFile)
      then move env st event
      else st)"
| "onDidFilesChange env st _ = st"

definition handleActiveEditorChange ::
  "'s env \<Rightarrow> 's state \<Rightarrow> 's IEditorPane option \<Rightarrow> 's state" where
  "handleActiveEditorChange env st editorPane =
     handleEventInEditorNavigationStack env (handleEditorEventInHistory env st editorPane)
       editorPane None"

text \<open>
  The debounced selection listener of the active pane: events of one turn are merged (an
  \<open>EDIT\<close> seen first is kept), the merged event goes to the navigation stack, and an
  edit is remembered as the last edit location.
\<close>

definition mergeSelectionEvents ::
  "EditorPaneSelectionChangeReason option \<Rightarrow> EditorPaneSelectionChangeReason \<Rightarrow>
   EditorPaneSelectionChangeReason" where
  "mergeSelectionEvents lastEvent current = (if lastEvent = Some EDIT then EDIT else current)"

definition onDidChangeSelection ::
  "'s env \<Rightarrow> 's state \<Rightarrow> 's IEditorPane \<Rightarrow> EditorPaneSelectionChangeReason \<Rightarrow> 's state" where
  "onDidChangeSelection env st activeEditorPane mergedEvent =
     (let st1 = handleEventInEditorNavigationStack env st (Some activeEditorPane) (Some mergedEvent)
      in if mergedEvent = EDIT then rememberLastEditLocation st1 activeEditorPane else st1)"

section \<open>Invariants and reachable states\<close>

text \<open>
  The invariant of the navigation stack: at most 50 entries, the cursor at -1 on an
  empty stack and on an entry otherwise, the last cursor at -1 or on an entry.
\<close>

definition nav_inv :: "'s state \<Rightarrow> bool" where
  "nav_inv st =
     (length (editorNavigationStack st) \<le> MAX_EDITOR_NAVIGATION_STACK_ITEMS \<and>
      (if editorNavigationStack st = [] then editorNavigationStackIndex st = -1
       else 0 \<le> editorNavigationStackIndex st \<and>
            editorNavigationStackIndex st < int (length (editorNavigationStack st))) \<and>
      -1 \<le> lastEditorNavigationStackIndex st \<and>
      lastEditorNavigationStackIndex st < max 0 (int (length (editorNavigationStack st))))"


text \<open>Two states with the same navigation stack and cursors.\<close>

definition same_nav :: "'s state \<Rightarrow> 's state \<Rightarrow> bool" where
  "same_nav st' st =
     (editorNavigationStack st' = editorNavigationStack st \<and>
      editorNavigationStackIndex st' = editorNavigationStackIndex st \<and>
      lastEditorNavigationStackIndex st' = lastEditorNavigationStackIndex st)"

text \<open>
  The entry the history stores for a live editor (\<^verbatim>\<open>preferResourceEditorInput\<close> always
  has one for a live handle).
\<close>

definition storedEntry :: "'s env \<Rightarrow> EditorInput \<Rightarrow> editor_ref" where
  "storedEntry env editor =
     (case preferResourceEditorInput env (Typed editor) of
        None \<Rightarrow> Typed editor
      | Some entry \<Rightarrow> entry)"


text \<open>
  The states the service can be in: the initial state, and the state after any handler
  or public operation, with whatever the collaborators answer at that time. The
  \<^verbatim>\<open>finally\<close> block of \<^verbatim>\<open>navigate()\<close>, the listeners on editor disposal (of a stack
  entry: \<^verbatim>\<open>removeFromEditorNavigationStack\<close>; of a history entry:
  \<^verbatim>\<open>updateHistoryOnEditorDispose\<close>), the listener of the exclude matcher and the deferred
  \<^verbatim>\<open>loadHistory()\<close> are steps of their own. The record that \<^verbatim>\<open>onDidCloseEditor\<close>
  creates is a new object: its identity is none of the identities in the buffer.
\<close>

inductive reachable :: "'s state \<Rightarrow> bool" where
  reachable_initial: "reachable initial_state"
| reachable_activeEditorChange:
    "reachable st \<Longrightarrow> reachable (handleActiveEditorChange env st editorPane)"
| reachable_selectionChange:
    "reachable st \<Longrightarrow> reachable (onDidChangeSelection env st activeEditorPane mergedEvent)"
| reachable_forward: "reachable st \<Longrightarrow> reachable (forward st)"
| reachable_back: "reachable st \<Longrightarrow> reachable (back_nav st)"
| reachable_last: "reachable st \<Longrightarrow> reachable (last_nav st)"
| reachable_navigated: "reachable st \<Longrightarrow> reachable (navigate_finally st)"
| reachable_filesChange: "reachable st \<Longrightarrow> reachable (onDidFilesChange env st event)"
| reachable_openFailed: "reachable st \<Longrightarrow> reachable (remove_arg env st (OfEditor editor))"
| reachable_editorClosed:
    "reachable st \<Longrightarrow> newRecord \<notin> rc_ident ` set (recentlyClosedEditors st) \<Longrightarrow>
     reachable (onDidCloseEditor env st event newRecord)"
| reachable_stackEditorDisposed:
    "reachable st \<Longrightarrow>
     reachable (snd (removeFromEditorNavigationStack env st (OfEditor editor)))"
| reachable_historyEditorDisposed:
    "reachable st \<Longrightarrow> reachable (updateHistoryOnEditorDispose env st editor)"
| reachable_excludeChanged:
    "reachable st \<Longrightarrow> reachable (removeExcludedFromHistory env st)"
| reachable_removeFromHistory:
    "reachable st \<Longrightarrow> reachable (snd (removeFromHistory env st arg1))"
| reachable_getHistory: "reachable st \<Longrightarrow> reachable (ensureHistoryLoaded env st)"
| reachable_groupsReady: "reachable st \<Longrightarrow> reachable (loadHistory env st)"
| reachable_clear: "reachable st \<Longrightarrow> reachable (clear st)"
| reachable_clearRecentlyOpened: "reachable st \<Longrightarrow> reachable (clearRecentlyOpened st)"
| reachable_reopen: "reachable st \<Longrightarrow> reachable (reopenLastClosedEditor env st)"
| reachable_openLastEditLocation: "reachable st \<Longrightarrow> reachable (openLastEditLocation st)"




section \<open>Concrete inputs\<close>

text \<open>
  A restored workbench whose only file system provider is the one of the \<open>file\<close>
  scheme; selections are line numbers, compared by equality.
\<close>

definition env0 :: "nat env" where
  "env0 =
     \<lparr>selection_compare = (\<lambda>a b. if a = b then IDENTICAL else DIFFERENT),
      lifecycle_restored = True,
      fileService_hasProvider = (\<lambda>r. uri_scheme r = ''file''),
      defaultUriScheme = ''file'',
      editorGroupService_isReady = True,
      editors_mostRecentlyActive = [],
      storedEditorHistory = [],
      resourceExcludeMatcher_matches = (\<lambda>r. False),
      activeGroup_isSticky = (\<lambda>i. False),
      activeGroup_contains = (\<lambda>e. False),
      openEditor_yieldsPane = (\<lambda>r. True),
      uri_toString =
        (\<lambda>r. uri_scheme r @ ''://'' @ uri_authority r @ concat (map (\<lambda>p. ''/'' @ p) (uri_path r))),
      sideBySideEditorInput = (\<lambda>e. None)\<rparr>"

text \<open>A pane with a selection concept on a live editor.\<close>

definition selectionPane :: "EditorInput \<Rightarrow> 's option \<Rightarrow> 's IEditorPane" where
  "selectionPane editor selection =
     \<lparr>pane_input = Some editor, pane_input_isDisposed = False,
      pane_withSelection = True, pane_getSelection = selection\<rparr>"


text \<open>An editor without a resource (a settings or welcome page): it is kept as a handle.\<close>

definition plainEditor :: "nat \<Rightarrow> EditorInput" where
  "plainEditor n =
     \<lparr>ei_ident = n, ei_resource = None, ei_editorId = None, ei_toUntyped = None\<rparr>"

definition plainEntry :: "nat \<Rightarrow> nat IEditorWithSelection" where
  "plainEntry n = \<lparr>ews_editor = Typed (plainEditor n), ews_selection = Some n\<rparr>"

text \<open>The stack \<open>[A, B, C]\<close> with the cursor at \<open>C\<close>.\<close>

definition stackABC :: "nat state" where
  "stackABC =
     initial_state\<lparr>editorNavigationStack := [plainEntry 1, plainEntry 2, plainEntry 3],
                   editorNavigationStackIndex := 2,
                   lastEditorNavigationStackIndex := 1\<rparr>"

definition fileUri :: "string list \<Rightarrow> URI" where
  "fileUri p = \<lparr>uri_scheme = ''file'', uri_authority = [], uri_path = p\<rparr>"

definition descriptor :: "string list \<Rightarrow> IResourceEditorInput" where
  "descriptor p = \<lparr>ri_resource = fileUri p, ri_override = None\<rparr>"

text \<open>Deleting the folder \<open>/a\<close> in the explorer, and a watcher batch that reports it.\<close>

definition deleteFolderA :: FileOperationEvent where
  "deleteFolderA = \<lparr>foe_operation = DELETE, foe_resource = fileUri [''a''], foe_target = None\<rparr>"

definition watcherDeletedA :: FileChangesEvent where
  "watcherDeletedA =
     \<lparr>fce_gotDeleted = True,
      fce_contains = (\<lambda>resource changeType. changeType = DELETED \<and> resource = fileUri [''a''])\<rparr>"

text \<open>A pane on a plain editor with the selection at line 7.\<close>

definition editedPane :: "nat IEditorPane" where
  "editedPane =
     \<lparr>pane_input = Some (plainEditor 1), pane_input_isDisposed = False,
      pane_withSelection = True, pane_getSelection = Some 7\<rparr>"

text \<open>
  A full navigation stack: fifty entries on distinct editors, with the given cursor and
  last cursor.
\<close>

definition fullStack :: "int \<Rightarrow> int \<Rightarrow> nat state" where
  "fullStack cursor lastCursor =
     initial_state\<lparr>editorNavigationStack := map plainEntry [0..<50],
                   editorNavigationStackIndex := cursor,
                   lastEditorNavigationStackIndex := lastCursor\<rparr>"

text \<open>
  The state after one selection event (line 5) on a plain editor, and the same state
  after \<^verbatim>\<open>clear()\<close>.
\<close>

definition afterFirstSelection :: "nat state" where
  "afterFirstSelection =
     handleEventInEditorNavigationStack env0 initial_state
       (Some (selectionPane (plainEditor 2) (Some 5))) (Some USER)"













section \<open>Replaying the navigation stack\<close>

text \<open>
  C10: when no previous jump is recorded (the last cursor is -1), \<^verbatim>\<open>last()\<close> is
  \<^verbatim>\<open>back()\<close>: the cursor moves one entry back when it is above 0, and nothing changes
  otherwise.
\<close>

theorem last_without_jump_is_back:
  assumes "lastEditorNavigationStackIndex st = -1"
  shows "last_nav st = back_nav st \<and>
         (if editorNavigationStackIndex st > 0
          then editorNavigationStackIndex (last_nav st) = editorNavigationStackIndex st - 1 \<and>
               editorNavigationStack (last_nav st) = editorNavigationStack st
          else last_nav st = st)"
  using assms
  by (simp add: last_nav_def back_nav_def navigate_def setIndex_def split: option.splits)

theorem last_without_jump_is_back_witness:
  "last_nav (stackABC\<lparr>lastEditorNavigationStackIndex := -1\<rparr>) =
     back_nav (stackABC\<lparr>lastEditorNavigationStackIndex := -1\<rparr>) \<and>
   editorNavigationStackIndex (last_nav (stackABC\<lparr>lastEditorNavigationStackIndex := -1\<rparr>)) = 1"
  using last_without_jump_is_back [of "stackABC\<lparr>lastEditorNavigationStackIndex := -1\<rparr>"]
  by (simp add: stackABC_def initial_state_def back_nav_def navigate_def setIndex_def
      array_at_def)

text \<open>
  C8: with the cursor on an entry at index \<open>i > 0\<close>, \<^verbatim>\<open>back()\<close> followed by
  \<^verbatim>\<open>forward()\<close> leaves the stack as it was and the cursor at \<open>i\<close>; the entry under
  the cursor is the one that was current before, and \<^verbatim>\<open>forward()\<close> opens that entry
  with its stored selection. The same holds when the open started by \<^verbatim>\<open>back()\<close> has
  settled in between.
\<close>

theorem back_then_forward:
  assumes "0 < editorNavigationStackIndex st"
    and "editorNavigationStackIndex st < int (length (editorNavigationStack st))"
  shows "editorNavigationStack (forward (back_nav st)) = editorNavigationStack st \<and>
         editorNavigationStackIndex (forward (back_nav st)) = editorNavigationStackIndex st \<and>
         array_at (editorNavigationStack (forward (back_nav st)))
                  (editorNavigationStackIndex (forward (back_nav st)))
           = array_at (editorNavigationStack st) (editorNavigationStackIndex st) \<and>
         openEditorCalls (forward (back_nav st)) =
           openEditorCalls st @
             [doNavigate (editorNavigationStack st ! nat (editorNavigationStackIndex st - 1)),
              doNavigate (editorNavigationStack st ! nat (editorNavigationStackIndex st))] \<and>
         forward (navigate_finally (back_nav st)) = forward (back_nav st)"
  using assms
  by (simp add: forward_def back_nav_def navigate_def navigate_finally_def setIndex_def
      array_at_def)

theorem back_then_forward_witness:
  "editorNavigationStack (forward (back_nav stackABC)) =
     [plainEntry 1, plainEntry 2, plainEntry 3] \<and>
   editorNavigationStackIndex (forward (back_nav stackABC)) = 2 \<and>
   openEditorCalls (forward (back_nav stackABC)) =
     [NavigateTo (Typed (plainEditor 2)) (Some 2), NavigateTo (Typed (plainEditor 3)) (Some 3)]"
proof -
  have h1: "0 < editorNavigationStackIndex stackABC"
    by (simp add: stackABC_def initial_state_def)
  have h2: "editorNavigationStackIndex stackABC < int (length (editorNavigationStack stackABC))"
    by (simp add: stackABC_def initial_state_def)
  from back_then_forward [OF h1 h2] show ?thesis
    by (simp add: stackABC_def initial_state_def doNavigate_def plainEntry_def)
qed

text \<open>
  C9: \<^verbatim>\<open>removeFromEditorNavigationStack\<close>, whatever its argument (a watcher event, a
  file operation or a disposed editor), leaves the cursor on the last index of the
  filtered stack and the last cursor at -1, also when no entry matched and the stack is
  unchanged.
\<close>

theorem removeFromEditorNavigationStack_resets:
  "editorNavigationStackIndex (snd (removeFromEditorNavigationStack env st arg1)) =
     int (length (editorNavigationStack (snd (removeFromEditorNavigationStack env st arg1)))) - 1 \<and>
   lastEditorNavigationStackIndex (snd (removeFromEditorNavigationStack env st arg1)) = -1 \<and>
   editorNavigationStack (snd (removeFromEditorNavigationStack env st arg1)) =
     filter (\<lambda>entry. \<not> matches env arg1 (ews_editor entry)) (editorNavigationStack st) \<and>
   (\<not> fst (removeFromEditorNavigationStack env st arg1) \<longrightarrow>
      editorNavigationStack (snd (removeFromEditorNavigationStack env st arg1)) =
        editorNavigationStack st)"
  by (auto simp add: removeFromEditorNavigationStack_def Let_def list_ex_iff filter_id_conv)

theorem removeFromEditorNavigationStack_resets_witness:
  "\<not> fst (removeFromEditorNavigationStack env0
            (stackABC\<lparr>editorNavigationStackIndex := 0\<rparr>) (OfEditor (plainEditor 9))) \<and>
   editorNavigationStack (snd (removeFromEditorNavigationStack env0
            (stackABC\<lparr>editorNavigationStackIndex := 0\<rparr>) (OfEditor (plainEditor 9)))) =
     [plainEntry 1, plainEntry 2, plainEntry 3] \<and>
   editorNavigationStackIndex (snd (removeFromEditorNavigationStack env0
            (stackABC\<lparr>editorNavigationStackIndex := 0\<rparr>) (OfEditor (plainEditor 9)))) = 2 \<and>
   lastEditorNavigationStackIndex (snd (removeFromEditorNavigationStack env0
            (stackABC\<lparr>editorNavigationStackIndex := 0\<rparr>) (OfEditor (plainEditor 9)))) = -1"
proof -
  have nomatch: "\<not> fst (removeFromEditorNavigationStack env0
            (stackABC\<lparr>editorNavigationStackIndex := 0\<rparr>) (OfEditor (plainEditor 9)))"
    by (simp add: removeFromEditorNavigationStack_def stackABC_def initial_state_def
        plainEntry_def plainEditor_def EditorInput_matches_def)
  from nomatch
    removeFromEditorNavigationStack_resets [of env0 "stackABC\<lparr>editorNavigationStackIndex := 0\<rparr>"
      "OfEditor (plainEditor 9)"]
  show ?thesis
    by (simp add: removeFromEditorNavigationStack_def stackABC_def initial_state_def
        plainEntry_def plainEditor_def EditorInput_matches_def)
qed

section \<open>Delete events in the identity matcher\<close>

text \<open>
  The claim C3 as stated fails: the delete of the folder \<open>/a\<close> through a file operation
  matches the descriptor of \<open>/a/b.txt\<close>, whose resource is a strict descendant of the
  deleted one.
\<close>

theorem delete_operation_matches_descendant:
  "foe_operation deleteFolderA = DELETE \<and>
   matches env0 (OfFileOperation deleteFolderA) (Untyped (descriptor [''a'', ''b.txt''])) \<and>
   ri_resource (descriptor [''a'', ''b.txt'']) \<noteq> foe_resource deleteFolderA"
  by (simp add: deleteFolderA_def descriptor_def fileUri_def extUri_isEqualOrParent_def)

text \<open>
  C3, amended: a delete event never matches a live handle. A watcher event
  (\<^verbatim>\<open>FileChangesEvent\<close>) matches a descriptor exactly when the event's own
  \<^verbatim>\<open>contains(resource, DELETED)\<close> holds of the descriptor's resource. A file operation
  (\<^verbatim>\<open>FileOperationEvent\<close>, the delete of the explorer included) matches a descriptor
  exactly when the descriptor's resource equals the operation's resource or is a
  descendant of it: same scheme and authority, and the operation's path is a prefix of
  the descriptor's path.
\<close>

theorem matches_delete_event:
  "\<not> matches env (OfFileChanges watcherEvent) (Typed b) \<and>
   \<not> matches env (OfFileOperation operationEvent) (Typed b) \<and>
   matches env (OfFileChanges watcherEvent) (Untyped d) =
     fce_contains watcherEvent (ri_resource d) DELETED \<and>
   matches env (OfFileOperation operationEvent) (Untyped d) =
     (uri_scheme (ri_resource d) = uri_scheme (foe_resource operationEvent) \<and>
      uri_authority (ri_resource d) = uri_authority (foe_resource operationEvent) \<and>
      take (length (uri_path (foe_resource operationEvent))) (uri_path (ri_resource d)) =
        uri_path (foe_resource operationEvent))"
  by (simp add: extUri_isEqualOrParent_def)

theorem matches_delete_event_witness:
  "\<not> matches env0 (OfFileChanges watcherDeletedA) (Typed (plainEditor 1)) \<and>
   \<not> matches env0 (OfFileOperation deleteFolderA) (Typed (plainEditor 1)) \<and>
   matches env0 (OfFileChanges watcherDeletedA) (Untyped (descriptor [''a''])) \<and>
   \<not> matches env0 (OfFileChanges watcherDeletedA) (Untyped (descriptor [''a'', ''b.txt''])) \<and>
   matches env0 (OfFileOperation deleteFolderA) (Untyped (descriptor [''a''])) \<and>
   matches env0 (OfFileOperation deleteFolderA) (Untyped (descriptor [''a'', ''b.txt''])) \<and>
   \<not> matches env0 (OfFileOperation deleteFolderA) (Untyped (descriptor [''c'']))"
  using matches_delete_event [of env0 watcherDeletedA "plainEditor 1" deleteFolderA
      "descriptor [''a'', ''b.txt'']"]
    matches_delete_event [of env0 watcherDeletedA "plainEditor 1" deleteFolderA
      "descriptor [''a'']"]
    matches_delete_event [of env0 watcherDeletedA "plainEditor 1" deleteFolderA
      "descriptor [''c'']"]
  by (simp add: deleteFolderA_def watcherDeletedA_def descriptor_def fileUri_def)

section \<open>Clearing the service\<close>

text \<open>
  The claim C7 as stated fails: after an edit was remembered, \<^verbatim>\<open>clear()\<close> leaves the
  last edit location in place and \<^verbatim>\<open>openLastEditLocation()\<close> opens it.
\<close>

theorem clear_keeps_last_edit_location:
  "lastEditLocation (clear (rememberLastEditLocation initial_state editedPane)) =
     Some \<lparr>ews_editor = Typed (plainEditor 1), ews_selection = Some 7\<rparr> \<and>
   openEditorCalls (openLastEditLocation (clear (rememberLastEditLocation initial_state editedPane))) =
     [NavigateTo (Typed (plainEditor 1)) (Some 7)] \<and>
   openLastEditLocation (clear (rememberLastEditLocation initial_state editedPane)) \<noteq>
     clear (rememberLastEditLocation initial_state editedPane)"
proof -
  let ?st = "clear (rememberLastEditLocation initial_state editedPane)"
  have loc: "lastEditLocation ?st =
      Some \<lparr>ews_editor = Typed (plainEditor 1), ews_selection = Some 7\<rparr>"
    by (simp add: clear_def clearRecentlyOpened_def rememberLastEditLocation_def liveInput_def
        editedPane_def initial_state_def)
  have calls0: "openEditorCalls ?st = []"
    by (simp add: clear_def clearRecentlyOpened_def rememberLastEditLocation_def liveInput_def
        editedPane_def initial_state_def)
  have calls: "openEditorCalls (openLastEditLocation ?st) =
      [NavigateTo (Typed (plainEditor 1)) (Some 7)]"
    by (simp add: openLastEditLocation_def loc calls0 doNavigate_def)
  have "openLastEditLocation ?st \<noteq> ?st"
    using calls calls0 by force
  with loc calls show ?thesis by simp
qed

text \<open>
  C7, amended: \<^verbatim>\<open>clear()\<close> empties the navigation stack and puts both cursors at -1,
  empties the global history and the buffer of recently closed editors, and leaves the
  last edit location as it was; \<^verbatim>\<open>openLastEditLocation()\<close> afterwards does nothing
  exactly when no edit location was stored before, and opens the stored one otherwise.
\<close>

theorem clear_resets_stacks:
  "editorNavigationStack (clear st) = [] \<and>
   editorNavigationStackIndex (clear st) = -1 \<and>
   lastEditorNavigationStackIndex (clear st) = -1 \<and>
   history (clear st) = Some [] \<and>
   recentlyClosedEditors (clear st) = [] \<and>
   lastEditLocation (clear st) = lastEditLocation st \<and>
   openLastEditLocation (clear st) =
     (case lastEditLocation st of
        None \<Rightarrow> clear st
      | Some location \<Rightarrow>
          (clear st)\<lparr>openEditorCalls := openEditorCalls st @ [doNavigate location]\<rparr>)"
  by (simp add: clear_def clearRecentlyOpened_def openLastEditLocation_def split: option.splits)

theorem clear_resets_stacks_witness:
  "editorNavigationStack (clear stackABC) = [] \<and>
   editorNavigationStackIndex (clear stackABC) = -1 \<and>
   lastEditorNavigationStackIndex (clear stackABC) = -1 \<and>
   history (clear stackABC) = Some [] \<and>
   recentlyClosedEditors (clear stackABC) = [] \<and>
   openLastEditLocation (clear stackABC) = clear stackABC"
  using clear_resets_stacks [of stackABC]
  by (simp add: stackABC_def initial_state_def)

section \<open>Pushing onto the navigation stack\<close>

lemma doAdd_no_input:
  assumes "preferResourceEditorInput env editor = None"
  shows "doAddOrReplaceInEditorNavigationStack env st editor selection forceReplace = st"
  using assms by (simp add: doAddOrReplaceInEditorNavigationStack_def)

lemma doAdd_push_fields:
  assumes "preferResourceEditorInput env editor = Some e"
    and "\<not> shouldReplaceStackEntry env st editor selection forceReplace"
  shows "editorNavigationStack
           (doAddOrReplaceInEditorNavigationStack env st editor selection forceReplace) =
         editorNavigationStack
           (fst (addAfterIndex st \<lparr>ews_editor = e, ews_selection = selection\<rparr>))"
    and "editorNavigationStackIndex
           (doAddOrReplaceInEditorNavigationStack env st editor selection forceReplace) =
         editorNavigationStackIndex
           (fst (addAfterIndex st \<lparr>ews_editor = e, ews_selection = selection\<rparr>))"
    and "lastEditorNavigationStackIndex
           (doAddOrReplaceInEditorNavigationStack env st editor selection forceReplace) =
         lastEditorNavigationStackIndex
           (fst (addAfterIndex st \<lparr>ews_editor = e, ews_selection = selection\<rparr>))"
  using assms
  by (simp_all add: doAddOrReplaceInEditorNavigationStack_def Let_def
      split: prod.splits editor_ref.splits)

lemma doAdd_replace_fields:
  assumes "preferResourceEditorInput env editor = Some e"
    and "shouldReplaceStackEntry env st editor selection forceReplace"
  shows "editorNavigationStack
           (doAddOrReplaceInEditorNavigationStack env st editor selection forceReplace) =
         (editorNavigationStack st)
           [nat (editorNavigationStackIndex st) := \<lparr>ews_editor = e, ews_selection = selection\<rparr>]"
    and "editorNavigationStackIndex
           (doAddOrReplaceInEditorNavigationStack env st editor selection forceReplace) =
         editorNavigationStackIndex st"
    and "lastEditorNavigationStackIndex
           (doAddOrReplaceInEditorNavigationStack env st editor selection forceReplace) =
         lastEditorNavigationStackIndex st"
  using assms
  by (simp_all add: doAddOrReplaceInEditorNavigationStack_def replaceAtIndex_def Let_def
      split: prod.splits editor_ref.splits)

lemma doAdd_other_fields:
  "navigatingInEditorStack
     (doAddOrReplaceInEditorNavigationStack env st editor selection forceReplace) =
   navigatingInEditorStack st"
  "currentEditorSelectionState
     (doAddOrReplaceInEditorNavigationStack env st editor selection forceReplace) =
   currentEditorSelectionState st"
  by (simp_all add: doAddOrReplaceInEditorNavigationStack_def replaceAtIndex_def
      addAfterIndex_def setIndex_def Let_def
      split: prod.splits editor_ref.splits option.splits)

lemma addAfterIndex_at_limit:
  assumes "length (editorNavigationStack st) = 50"
    and "editorNavigationStackIndex st = 49"
  shows "editorNavigationStack (fst (addAfterIndex st entry)) =
           tl (editorNavigationStack st) @ [entry]"
    and "editorNavigationStackIndex (fst (addAfterIndex st entry)) = 49"
    and "lastEditorNavigationStackIndex (fst (addAfterIndex st entry)) =
           (if lastEditorNavigationStackIndex st \<ge> 0
            then lastEditorNavigationStackIndex st - 1
            else lastEditorNavigationStackIndex st)"
  using assms
  by (cases "editorNavigationStack st";
      simp add: addAfterIndex_def Let_def array_splice_insert_def
        MAX_EDITOR_NAVIGATION_STACK_ITEMS_def)+

lemma addAfterIndex_below_limit:
  assumes "-1 \<le> editorNavigationStackIndex st"
    and "editorNavigationStackIndex st < int (length (editorNavigationStack st))"
    and "length (editorNavigationStack st) \<le> 50"
    and "\<not> (length (editorNavigationStack st) = 50 \<and> editorNavigationStackIndex st = 49)"
  shows "editorNavigationStack (fst (addAfterIndex st entry)) =
           take (nat (editorNavigationStackIndex st + 1)) (editorNavigationStack st) @ [entry]"
    and "editorNavigationStackIndex (fst (addAfterIndex st entry)) =
           editorNavigationStackIndex st + 1"
    and "lastEditorNavigationStackIndex (fst (addAfterIndex st entry)) =
           editorNavigationStackIndex st"
  using assms
  by (auto simp add: addAfterIndex_def Let_def array_splice_insert_def array_slice0_def
      setIndex_def MAX_EDITOR_NAVIGATION_STACK_ITEMS_def)

lemma nav_inv_cursor:
  assumes "nav_inv st"
  shows "-1 \<le> editorNavigationStackIndex st"
    and "editorNavigationStackIndex st < int (length (editorNavigationStack st))"
    and "length (editorNavigationStack st) \<le> 50"
  using assms
  by (auto simp add: nav_inv_def MAX_EDITOR_NAVIGATION_STACK_ITEMS_def split: if_splits)

lemma nav_inv_fields:
  assumes "editorNavigationStack st' = editorNavigationStack st"
    and "editorNavigationStackIndex st' = editorNavigationStackIndex st"
    and "lastEditorNavigationStackIndex st' = lastEditorNavigationStackIndex st"
  shows "nav_inv st' = nav_inv st"
  using assms by (simp add: nav_inv_def)

lemma nav_inv_addAfterIndex:
  assumes "nav_inv st"
  shows "nav_inv (fst (addAfterIndex st entry))"
proof (cases "length (editorNavigationStack st) = 50 \<and> editorNavigationStackIndex st = 49")
  case True
  with assms addAfterIndex_at_limit [of st entry] show ?thesis
    by (cases "editorNavigationStack st")
       (auto simp add: nav_inv_def MAX_EDITOR_NAVIGATION_STACK_ITEMS_def)
next
  case False
  from nav_inv_cursor [OF assms] False
  have eq: "editorNavigationStack (fst (addAfterIndex st entry)) =
           take (nat (editorNavigationStackIndex st + 1)) (editorNavigationStack st) @ [entry]"
    "editorNavigationStackIndex (fst (addAfterIndex st entry)) =
           editorNavigationStackIndex st + 1"
    "lastEditorNavigationStackIndex (fst (addAfterIndex st entry)) =
           editorNavigationStackIndex st"
    by (simp_all add: addAfterIndex_below_limit)
  from nav_inv_cursor [OF assms] False show ?thesis
    unfolding nav_inv_def eq
    by (auto simp add: MAX_EDITOR_NAVIGATION_STACK_ITEMS_def min_def)
qed

lemma nav_inv_doAdd:
  assumes "nav_inv st"
  shows "nav_inv (doAddOrReplaceInEditorNavigationStack env st editor selection forceReplace)"
proof (cases "preferResourceEditorInput env editor")
  case None
  with assms show ?thesis by (simp add: doAdd_no_input)
next
  case (Some e)
  show ?thesis
  proof (cases "shouldReplaceStackEntry env st editor selection forceReplace")
    case True
    from assms show ?thesis
      unfolding nav_inv_def doAdd_replace_fields [OF Some True] by simp
  next
    case False
    from nav_inv_addAfterIndex [OF assms, of "\<lparr>ews_editor = e, ews_selection = selection\<rparr>"]
    show ?thesis
      unfolding nav_inv_def doAdd_push_fields [OF Some False] by simp
  qed
qed

lemma plain_prefer:
  "preferResourceEditorInput env (Typed (plainEditor n)) = Some (Typed (plainEditor n))"
  by (simp add: preferResourceEditorInput_def hasValidResourceEditorInputScheme_def
      plainEditor_def)

lemma fullStack_fields:
  "editorNavigationStack (fullStack c l) = map plainEntry [0..<50]"
  "editorNavigationStackIndex (fullStack c l) = c"
  "lastEditorNavigationStackIndex (fullStack c l) = l"
  "length (editorNavigationStack (fullStack c l)) = 50"
  by (simp_all add: fullStack_def initial_state_def)

lemma fullStack_no_replace:
  assumes "0 \<le> c" and "c < 50" and "nat c \<noteq> n"
  shows "\<not> shouldReplaceStackEntry env (fullStack c l) (Typed (plainEditor n)) selection False"
  using assms
  by (simp add: shouldReplaceStackEntry_def fullStack_fields array_at_def plainEntry_def
      plainEditor_def EditorInput_matches_def)

text \<open>
  The claim C1 as stated fails: with fifty entries and the cursor on the entry before the
  last (the state after fifty pushes and one \<^verbatim>\<open>back()\<close>), a push removes the entry
  beyond the cursor and keeps the entry at index 0; nothing is evicted.
\<close>

theorem push_on_full_stack_keeps_oldest:
  "length (editorNavigationStack (fullStack 48 49)) = 50 \<and>
   preferResourceEditorInput env0 (Typed (plainEditor 100)) = Some (Typed (plainEditor 100)) \<and>
   \<not> shouldReplaceStackEntry env0 (fullStack 48 49) (Typed (plainEditor 100)) (Some 100) False \<and>
   editorNavigationStack (fullStack 48 49) ! 0 = plainEntry 0 \<and>
   editorNavigationStack
     (doAddOrReplaceInEditorNavigationStack env0 (fullStack 48 49) (Typed (plainEditor 100))
        (Some 100) False) ! 0 = plainEntry 0 \<and>
   editorNavigationStack
     (doAddOrReplaceInEditorNavigationStack env0 (fullStack 48 49) (Typed (plainEditor 100))
        (Some 100) False) = map plainEntry [0..<49] @ [plainEntry 100]"
proof -
  let ?st = "fullStack 48 49"
  have nr: "\<not> shouldReplaceStackEntry env0 ?st (Typed (plainEditor 100)) (Some 100) False"
    by (rule fullStack_no_replace) simp_all
  have "editorNavigationStack
     (doAddOrReplaceInEditorNavigationStack env0 ?st (Typed (plainEditor 100)) (Some 100) False) =
     take (nat (editorNavigationStackIndex ?st + 1)) (editorNavigationStack ?st) @
       [\<lparr>ews_editor = Typed (plainEditor 100), ews_selection = Some 100\<rparr>]"
    unfolding doAdd_push_fields [OF plain_prefer nr]
    by (rule addAfterIndex_below_limit) (simp_all add: fullStack_fields)
  then have st: "editorNavigationStack
     (doAddOrReplaceInEditorNavigationStack env0 ?st (Typed (plainEditor 100)) (Some 100) False) =
     map plainEntry [0..<49] @ [plainEntry 100]"
    by (simp add: fullStack_fields plainEntry_def take_map)
  have "(map plainEntry [0..<49] @ [plainEntry 100]) ! 0 = plainEntry 0"
    by (simp add: nth_append)
  with st nr show ?thesis
    by (simp add: fullStack_fields plain_prefer)
qed

section \<open>Branch truncation\<close>

lemma back_nav_fields:
  assumes "0 < editorNavigationStackIndex st"
  shows "editorNavigationStack (navigate_finally (back_nav st)) = editorNavigationStack st"
    and "editorNavigationStackIndex (navigate_finally (back_nav st)) =
           editorNavigationStackIndex st - 1"
    and "editorNavigationStackIndex (back_nav st) = editorNavigationStackIndex st - 1"
    and "\<not> navigatingInEditorStack (navigate_finally (back_nav st))"
  using assms
  by (simp_all add: back_nav_def navigate_def navigate_finally_def setIndex_def
      split: option.splits)

text \<open>
  C4: when the cursor is not on the last entry, a qualifying push (one that
  \<^verbatim>\<open>doAddOrReplaceInEditorNavigationStack\<close> does not turn into a replacement, for an
  editor it can store) discards every entry beyond the cursor and puts the new entry
  right after the cursor, which moves onto it. From the stack \<open>[A, B, C]\<close> with the
  cursor at \<open>C\<close>, \<^verbatim>\<open>back()\<close> puts the cursor at \<open>B\<close>, and once its open has
  settled a push of \<open>D\<close> gives exactly \<open>[A, B, D]\<close> with the cursor at \<open>D\<close>.
\<close>

theorem push_truncates_beyond_cursor:
  "(-1 \<le> editorNavigationStackIndex st \<and>
    editorNavigationStackIndex st + 1 < int (length (editorNavigationStack st)) \<and>
    length (editorNavigationStack st) \<le> 50 \<and>
    preferResourceEditorInput env editor = Some e \<and>
    \<not> shouldReplaceStackEntry env st editor selection forceReplace \<longrightarrow>
      editorNavigationStack
        (doAddOrReplaceInEditorNavigationStack env st editor selection forceReplace) =
        take (nat (editorNavigationStackIndex st + 1)) (editorNavigationStack st) @
          [\<lparr>ews_editor = e, ews_selection = selection\<rparr>] \<and>
      editorNavigationStackIndex
        (doAddOrReplaceInEditorNavigationStack env st editor selection forceReplace) =
        editorNavigationStackIndex st + 1) \<and>
   (editorNavigationStack st0 = [A, B, C] \<and> editorNavigationStackIndex st0 = 2 \<and>
    preferResourceEditorInput env editor = Some e \<and>
    \<not> shouldReplaceStackEntry env (navigate_finally (back_nav st0)) editor selection False \<longrightarrow>
      editorNavigationStackIndex (back_nav st0) = 1 \<and>
      editorNavigationStack
        (addToEditorNavigationStack env (navigate_finally (back_nav st0)) editor selection) =
        [A, B, \<lparr>ews_editor = e, ews_selection = selection\<rparr>] \<and>
      editorNavigationStackIndex
        (addToEditorNavigationStack env (navigate_finally (back_nav st0)) editor selection) = 2)"
proof (intro conjI impI; elim conjE)
  assume lo: "-1 \<le> editorNavigationStackIndex st"
    and nt: "editorNavigationStackIndex st + 1 < int (length (editorNavigationStack st))"
    and len: "length (editorNavigationStack st) \<le> 50"
    and pref: "preferResourceEditorInput env editor = Some e"
    and push: "\<not> shouldReplaceStackEntry env st editor selection forceReplace"
  have hi: "editorNavigationStackIndex st < int (length (editorNavigationStack st))"
    using nt by simp
  have nf: "\<not> (length (editorNavigationStack st) = 50 \<and> editorNavigationStackIndex st = 49)"
    using nt by auto
  note eq = doAdd_push_fields [OF pref push] addAfterIndex_below_limit [OF lo hi len nf]
  show "editorNavigationStack
        (doAddOrReplaceInEditorNavigationStack env st editor selection forceReplace) =
        take (nat (editorNavigationStackIndex st + 1)) (editorNavigationStack st) @
          [\<lparr>ews_editor = e, ews_selection = selection\<rparr>]"
    unfolding eq by simp
  show "editorNavigationStackIndex
        (doAddOrReplaceInEditorNavigationStack env st editor selection forceReplace) =
        editorNavigationStackIndex st + 1"
    unfolding eq by simp
next
  assume stack: "editorNavigationStack st0 = [A, B, C]"
    and cur: "editorNavigationStackIndex st0 = 2"
    and pref: "preferResourceEditorInput env editor = Some e"
    and push: "\<not> shouldReplaceStackEntry env (navigate_finally (back_nav st0)) editor selection False"
  let ?st1 = "navigate_finally (back_nav st0)"
  have pos: "0 < editorNavigationStackIndex st0"
    using cur by simp
  note b = back_nav_fields [OF pos]
  have lo: "-1 \<le> editorNavigationStackIndex ?st1"
    and hi: "editorNavigationStackIndex ?st1 < int (length (editorNavigationStack ?st1))"
    and len: "length (editorNavigationStack ?st1) \<le> 50"
    and nf: "\<not> (length (editorNavigationStack ?st1) = 50 \<and> editorNavigationStackIndex ?st1 = 49)"
    unfolding b by (simp_all add: stack cur)
  note eq = doAdd_push_fields [OF pref push] addAfterIndex_below_limit [OF lo hi len nf]
  show "editorNavigationStackIndex (back_nav st0) = 1"
    unfolding b by (simp add: cur)
  show "editorNavigationStack (addToEditorNavigationStack env ?st1 editor selection) =
        [A, B, \<lparr>ews_editor = e, ews_selection = selection\<rparr>]"
    unfolding addToEditorNavigationStack_def using b(4)
    by (simp add: eq) (simp add: b stack cur)
  show "editorNavigationStackIndex (addToEditorNavigationStack env ?st1 editor selection) = 2"
    unfolding addToEditorNavigationStack_def using b(4)
    by (simp add: eq) (simp add: b stack cur)
qed

theorem push_truncates_beyond_cursor_witness:
  "editorNavigationStackIndex (back_nav stackABC) = 1 \<and>
   editorNavigationStack
     (addToEditorNavigationStack env0 (navigate_finally (back_nav stackABC))
        (Typed (plainEditor 4)) (Some 4)) = [plainEntry 1, plainEntry 2, plainEntry 4] \<and>
   editorNavigationStackIndex
     (addToEditorNavigationStack env0 (navigate_finally (back_nav stackABC))
        (Typed (plainEditor 4)) (Some 4)) = 2 \<and>
   editorNavigationStack
     (doAddOrReplaceInEditorNavigationStack env0 (stackABC\<lparr>editorNavigationStackIndex := 0\<rparr>)
        (Typed (plainEditor 4)) (Some 4) False) = [plainEntry 1, plainEntry 4]"
proof -
  let ?st1 = "navigate_finally (back_nav stackABC)"
  let ?st2 = "stackABC\<lparr>editorNavigationStackIndex := 0\<rparr>"
  have stack: "editorNavigationStack stackABC = [plainEntry 1, plainEntry 2, plainEntry 3]"
    and cur: "editorNavigationStackIndex stackABC = 2"
    by (simp_all add: stackABC_def initial_state_def)
  have push1: "\<not> shouldReplaceStackEntry env0 ?st1 (Typed (plainEditor 4)) (Some 4) False"
    by (simp add: shouldReplaceStackEntry_def back_nav_def navigate_def navigate_finally_def
        setIndex_def array_at_def stackABC_def initial_state_def plainEntry_def plainEditor_def
        EditorInput_matches_def)
  have push2: "\<not> shouldReplaceStackEntry env0 ?st2 (Typed (plainEditor 4)) (Some 4) False"
    by (simp add: shouldReplaceStackEntry_def array_at_def stackABC_def initial_state_def
        plainEntry_def plainEditor_def EditorInput_matches_def)
  have fields2: "editorNavigationStack ?st2 = [plainEntry 1, plainEntry 2, plainEntry 3]"
    "editorNavigationStackIndex ?st2 = 0"
    by (simp_all add: stackABC_def initial_state_def)
  from push_truncates_beyond_cursor [of ?st2 env0 "Typed (plainEditor 4)"
      "Typed (plainEditor 4)" "Some 4" False stackABC "plainEntry 1" "plainEntry 2" "plainEntry 3"]
    stack cur push1 push2 plain_prefer [of env0 4] fields2
  show ?thesis
    by (simp add: plainEntry_def)
qed

section \<open>Push or replace on a selection event\<close>

lemma prefer_typed:
  "\<exists>e. preferResourceEditorInput env (Typed editor) = Some e"
  by (simp add: preferResourceEditorInput_def split: option.splits IUntypedEditorInput.splits)

lemma storedEntry_prefer:
  "preferResourceEditorInput env (Typed editor) = Some (storedEntry env editor)"
  using prefer_typed [of env editor] by (auto simp add: storedEntry_def)

lemma storedEntry_plain: "storedEntry env (plainEditor n) = Typed (plainEditor n)"
  by (simp add: storedEntry_def plain_prefer)

lemma justifies_iff:
  "justifiesNewNavigationEntry env this other =
     (ess_reason other = Some NAVIGATION \<or>
      \<not> EditorInput_matches (ess_editor this) (ess_editor other) \<or>
      ess_selection this = None \<or> ess_selection other = None \<or>
      (\<exists>a b. ess_selection this = Some a \<and> ess_selection other = Some b \<and>
             selection_compare env b a = DIFFERENT))"
  by (auto simp add: justifiesNewNavigationEntry_def split: option.splits)

lemma handleSelectionAware_unfold:
  assumes "\<not> navigatingInEditorStack st"
  shows "handleSelectionAwareEditorEventInEditorNavigationStack env st editorPane editor event =
     (doAddOrReplaceInEditorNavigationStack env st (Typed editor) (pane_getSelection editorPane)
        (\<not> (case currentEditorSelectionState st of
               None \<Rightarrow> True
             | Some current \<Rightarrow>
                 justifiesNewNavigationEntry env current
                   \<lparr>ess_editor = editor, ess_selection = pane_getSelection editorPane,
                    ess_reason = event\<rparr>)))
       \<lparr>currentEditorSelectionState :=
          Some \<lparr>ess_editor = editor, ess_selection = pane_getSelection editorPane,
                ess_reason = event\<rparr>\<rparr>"
  using assms
  by (simp add: handleSelectionAwareEditorEventInEditorNavigationStack_def Let_def
      addToEditorNavigationStack_def replaceInEditorNavigationStack_def)

lemma handleEvent_selectionPane:
  assumes "\<not> navigatingInEditorStack st"
  shows "handleEventInEditorNavigationStack env st (Some (selectionPane editor selection)) event =
         handleSelectionAwareEditorEventInEditorNavigationStack env st
           (selectionPane editor selection) editor event"
  using assms
  by (simp add: handleEventInEditorNavigationStack_def liveInput_def selectionPane_def)

lemma addAfterIndex_result:
  assumes "nav_inv st"
  shows "editorNavigationStack (fst (addAfterIndex st entry)) =
           (if length (editorNavigationStack st) = 50 \<and> editorNavigationStackIndex st = 49
            then tl (editorNavigationStack st) @ [entry]
            else take (nat (editorNavigationStackIndex st + 1)) (editorNavigationStack st) @ [entry])"
    and "editorNavigationStackIndex (fst (addAfterIndex st entry)) =
           (if length (editorNavigationStack st) = 50 \<and> editorNavigationStackIndex st = 49
            then 49 else editorNavigationStackIndex st + 1)"
  using addAfterIndex_at_limit [of st entry] addAfterIndex_below_limit [of st entry]
    nav_inv_cursor [OF assms]
  by auto

lemma selectionPane_selection:
  "pane_getSelection (selectionPane editor selection) = selection"
  by (simp add: selectionPane_def)

lemma first_selection_event:
  assumes empty: "editorNavigationStack st = []" "editorNavigationStackIndex st = -1"
    and nonav: "\<not> navigatingInEditorStack st"
    and pref: "preferResourceEditorInput env (Typed editor) = Some e"
  shows "editorNavigationStack
           (handleEventInEditorNavigationStack env st (Some (selectionPane editor selection)) event) =
         [\<lparr>ews_editor = e, ews_selection = selection\<rparr>]"
    and "editorNavigationStackIndex
           (handleEventInEditorNavigationStack env st (Some (selectionPane editor selection)) event) = 0"
    and "currentEditorSelectionState
           (handleEventInEditorNavigationStack env st (Some (selectionPane editor selection)) event) =
         Some \<lparr>ess_editor = editor, ess_selection = selection, ess_reason = event\<rparr>"
    and "\<not> navigatingInEditorStack
           (handleEventInEditorNavigationStack env st (Some (selectionPane editor selection)) event)"
    and "lastEditorNavigationStackIndex
           (handleEventInEditorNavigationStack env st (Some (selectionPane editor selection)) event) = -1"
proof -
  let ?force = "\<not> (case currentEditorSelectionState st of
                      None \<Rightarrow> True
                    | Some current \<Rightarrow>
                        justifiesNewNavigationEntry env current
                          \<lparr>ess_editor = editor, ess_selection = selection, ess_reason = event\<rparr>)"
  have push: "\<not> shouldReplaceStackEntry env st (Typed editor) selection ?force"
    by (simp add: shouldReplaceStackEntry_def array_at_def empty)
  have lo: "-1 \<le> editorNavigationStackIndex st"
    and hi: "editorNavigationStackIndex st < int (length (editorNavigationStack st))"
    and len: "length (editorNavigationStack st) \<le> 50"
    and nf: "\<not> (length (editorNavigationStack st) = 50 \<and> editorNavigationStackIndex st = 49)"
    by (simp_all add: empty)
  note eq = doAdd_push_fields [OF pref push] addAfterIndex_below_limit [OF lo hi len nf]
  have h: "handleEventInEditorNavigationStack env st (Some (selectionPane editor selection)) event =
      (doAddOrReplaceInEditorNavigationStack env st (Typed editor) selection ?force)
       \<lparr>currentEditorSelectionState :=
          Some \<lparr>ess_editor = editor, ess_selection = selection, ess_reason = event\<rparr>\<rparr>"
    unfolding handleEvent_selectionPane [OF nonav] handleSelectionAware_unfold [OF nonav]
      selectionPane_selection ..
  show "editorNavigationStack
           (handleEventInEditorNavigationStack env st (Some (selectionPane editor selection)) event) =
         [\<lparr>ews_editor = e, ews_selection = selection\<rparr>]"
    unfolding h by (simp add: eq empty)
  show "editorNavigationStackIndex
           (handleEventInEditorNavigationStack env st (Some (selectionPane editor selection)) event) = 0"
    unfolding h by (simp add: eq empty)
  show "currentEditorSelectionState
           (handleEventInEditorNavigationStack env st (Some (selectionPane editor selection)) event) =
         Some \<lparr>ess_editor = editor, ess_selection = selection, ess_reason = event\<rparr>"
    unfolding h by simp
  show "\<not> navigatingInEditorStack
           (handleEventInEditorNavigationStack env st (Some (selectionPane editor selection)) event)"
    unfolding h by (simp add: doAdd_other_fields nonav)
  show "lastEditorNavigationStackIndex
           (handleEventInEditorNavigationStack env st (Some (selectionPane editor selection)) event) = -1"
    unfolding h by (simp add: eq empty)
qed

lemma handleSelectionAware_fields:
  assumes nonav: "\<not> navigatingInEditorStack st"
    and pref: "preferResourceEditorInput env (Typed editor) = Some e"
  shows "editorNavigationStack
           (handleSelectionAwareEditorEventInEditorNavigationStack env st editorPane editor event) =
         (if shouldReplaceStackEntry env st (Typed editor) (pane_getSelection editorPane)
               (\<not> (case currentEditorSelectionState st of
                      None \<Rightarrow> True
                    | Some current \<Rightarrow>
                        justifiesNewNavigationEntry env current
                          \<lparr>ess_editor = editor, ess_selection = pane_getSelection editorPane,
                           ess_reason = event\<rparr>))
          then (editorNavigationStack st)
                 [nat (editorNavigationStackIndex st) :=
                    \<lparr>ews_editor = e, ews_selection = pane_getSelection editorPane\<rparr>]
          else editorNavigationStack
                 (fst (addAfterIndex st
                    \<lparr>ews_editor = e, ews_selection = pane_getSelection editorPane\<rparr>)))"
    and "editorNavigationStackIndex
           (handleSelectionAwareEditorEventInEditorNavigationStack env st editorPane editor event) =
         (if shouldReplaceStackEntry env st (Typed editor) (pane_getSelection editorPane)
               (\<not> (case currentEditorSelectionState st of
                      None \<Rightarrow> True
                    | Some current \<Rightarrow>
                        justifiesNewNavigationEntry env current
                          \<lparr>ess_editor = editor, ess_selection = pane_getSelection editorPane,
                           ess_reason = event\<rparr>))
          then editorNavigationStackIndex st
          else editorNavigationStackIndex
                 (fst (addAfterIndex st
                    \<lparr>ews_editor = e, ews_selection = pane_getSelection editorPane\<rparr>)))"
proof -
  let ?force = "\<not> (case currentEditorSelectionState st of
                      None \<Rightarrow> True
                    | Some current \<Rightarrow>
                        justifiesNewNavigationEntry env current
                          \<lparr>ess_editor = editor, ess_selection = pane_getSelection editorPane,
                           ess_reason = event\<rparr>)"
  have "editorNavigationStack
           (handleSelectionAwareEditorEventInEditorNavigationStack env st editorPane editor event) =
         (if shouldReplaceStackEntry env st (Typed editor) (pane_getSelection editorPane) ?force
          then (editorNavigationStack st)
                 [nat (editorNavigationStackIndex st) :=
                    \<lparr>ews_editor = e, ews_selection = pane_getSelection editorPane\<rparr>]
          else editorNavigationStack
                 (fst (addAfterIndex st
                    \<lparr>ews_editor = e, ews_selection = pane_getSelection editorPane\<rparr>))) \<and>
        editorNavigationStackIndex
           (handleSelectionAwareEditorEventInEditorNavigationStack env st editorPane editor event) =
         (if shouldReplaceStackEntry env st (Typed editor) (pane_getSelection editorPane) ?force
          then editorNavigationStackIndex st
          else editorNavigationStackIndex
                 (fst (addAfterIndex st
                    \<lparr>ews_editor = e, ews_selection = pane_getSelection editorPane\<rparr>)))"
  proof (cases "shouldReplaceStackEntry env st (Typed editor) (pane_getSelection editorPane) ?force")
    case True
    then show ?thesis
      unfolding handleSelectionAware_unfold [OF nonav]
      by (simp add: doAdd_replace_fields [OF pref True])
  next
    case False
    then show ?thesis
      unfolding handleSelectionAware_unfold [OF nonav]
      by (simp add: doAdd_push_fields [OF pref False])
  qed
  then show "editorNavigationStack
           (handleSelectionAwareEditorEventInEditorNavigationStack env st editorPane editor event) =
         (if shouldReplaceStackEntry env st (Typed editor) (pane_getSelection editorPane) ?force
          then (editorNavigationStack st)
                 [nat (editorNavigationStackIndex st) :=
                    \<lparr>ews_editor = e, ews_selection = pane_getSelection editorPane\<rparr>]
          else editorNavigationStack
                 (fst (addAfterIndex st
                    \<lparr>ews_editor = e, ews_selection = pane_getSelection editorPane\<rparr>)))"
    and "editorNavigationStackIndex
           (handleSelectionAwareEditorEventInEditorNavigationStack env st editorPane editor event) =
         (if shouldReplaceStackEntry env st (Typed editor) (pane_getSelection editorPane) ?force
          then editorNavigationStackIndex st
          else editorNavigationStackIndex
                 (fst (addAfterIndex st
                    \<lparr>ews_editor = e, ews_selection = pane_getSelection editorPane\<rparr>)))"
    by simp_all
qed

lemma handleSelectionAware_stack:
  assumes nonav: "\<not> navigatingInEditorStack st"
    and inv: "nav_inv st"
    and pref: "preferResourceEditorInput env (Typed editor) = Some e"
  shows "editorNavigationStack
           (handleSelectionAwareEditorEventInEditorNavigationStack env st editorPane editor event) =
         (if shouldReplaceStackEntry env st (Typed editor) (pane_getSelection editorPane)
               (\<not> (case currentEditorSelectionState st of
                      None \<Rightarrow> True
                    | Some current \<Rightarrow>
                        justifiesNewNavigationEntry env current
                          \<lparr>ess_editor = editor, ess_selection = pane_getSelection editorPane,
                           ess_reason = event\<rparr>))
          then (editorNavigationStack st)
                 [nat (editorNavigationStackIndex st) :=
                    \<lparr>ews_editor = e, ews_selection = pane_getSelection editorPane\<rparr>]
          else if length (editorNavigationStack st) = 50 \<and> editorNavigationStackIndex st = 49
          then tl (editorNavigationStack st) @
                 [\<lparr>ews_editor = e, ews_selection = pane_getSelection editorPane\<rparr>]
          else take (nat (editorNavigationStackIndex st + 1)) (editorNavigationStack st) @
                 [\<lparr>ews_editor = e, ews_selection = pane_getSelection editorPane\<rparr>])"
  unfolding handleSelectionAware_fields(1) [OF nonav pref] addAfterIndex_result(1) [OF inv] ..

lemma second_selection_event:
  assumes empty: "editorNavigationStack st = []" "editorNavigationStackIndex st = -1"
    and nonav: "\<not> navigatingInEditorStack st"
    and pref: "preferResourceEditorInput env (Typed editor) = Some e"
  shows "editorNavigationStack
           (handleEventInEditorNavigationStack env
              (handleEventInEditorNavigationStack env st (Some (selectionPane editor (Some s1))) r1)
              (Some (selectionPane editor (Some s2))) r2) =
         (if (r2 \<noteq> Some NAVIGATION \<and> selection_compare env s2 s1 \<noteq> DIFFERENT) \<or>
             (matches env (of_ref e) (Typed editor) \<and> selection_compare env s1 s2 = IDENTICAL)
          then [\<lparr>ews_editor = e, ews_selection = Some s2\<rparr>]
          else [\<lparr>ews_editor = e, ews_selection = Some s1\<rparr>,
                \<lparr>ews_editor = e, ews_selection = Some s2\<rparr>])"
proof -
  let ?st1 = "handleEventInEditorNavigationStack env st (Some (selectionPane editor (Some s1))) r1"
  note f = first_selection_event [OF empty nonav pref, of "Some s1" r1]
  have inv: "nav_inv ?st1"
    by (simp add: nav_inv_def f MAX_EDITOR_NAVIGATION_STACK_ITEMS_def)
  have just: "justifiesNewNavigationEntry env
        \<lparr>ess_editor = editor, ess_selection = Some s1, ess_reason = r1\<rparr>
        \<lparr>ess_editor = editor, ess_selection = Some s2, ess_reason = r2\<rparr> =
      (r2 = Some NAVIGATION \<or> selection_compare env s2 s1 = DIFFERENT)"
    by (simp add: justifiesNewNavigationEntry_def EditorInput_matches_def)
  have repl: "shouldReplaceStackEntry env ?st1 (Typed editor) (Some s2) force =
      (force \<or> (matches env (of_ref e) (Typed editor) \<and> selection_compare env s1 s2 = IDENTICAL))"
    for force
    by (simp add: shouldReplaceStackEntry_def f array_at_def shouldReplaceEditorPaneSelection_def)
  show ?thesis
    unfolding handleEvent_selectionPane [OF f(4)]
      handleSelectionAware_stack [OF f(4) inv pref]
    by (simp add: f just repl selectionPane_selection)
qed

lemma afterFirstSelection_fields:
  "editorNavigationStack afterFirstSelection =
     [\<lparr>ews_editor = Typed (plainEditor 2), ews_selection = Some 5\<rparr>]"
  "editorNavigationStackIndex afterFirstSelection = 0"
  "lastEditorNavigationStackIndex afterFirstSelection = -1"
  "currentEditorSelectionState afterFirstSelection =
     Some \<lparr>ess_editor = plainEditor 2, ess_selection = Some 5, ess_reason = Some USER\<rparr>"
  "\<not> navigatingInEditorStack afterFirstSelection"
  unfolding afterFirstSelection_def
  by (simp_all add: first_selection_event [OF _ _ _ plain_prefer] initial_state_def)

text \<open>
  The claim C2 as stated fails in both directions. After a selection event at line 5, a
  second event on the same editor at the same line with reason \<open>NAVIGATION\<close> justifies
  a new entry, and yet the entry at the cursor is replaced: the stack keeps one entry.
  And after \<^verbatim>\<open>clear()\<close>, which keeps the current selection state, an event that does
  not justify a new entry is pushed, because the cursor has no entry to replace.
\<close>

theorem justified_event_replaces_and_unjustified_pushes:
  "justifiesNewNavigationEntry env0
     \<lparr>ess_editor = plainEditor 2, ess_selection = Some 5, ess_reason = Some USER\<rparr>
     \<lparr>ess_editor = plainEditor 2, ess_selection = Some 5, ess_reason = Some NAVIGATION\<rparr> \<and>
   currentEditorSelectionState afterFirstSelection =
     Some \<lparr>ess_editor = plainEditor 2, ess_selection = Some 5, ess_reason = Some USER\<rparr> \<and>
   length (editorNavigationStack afterFirstSelection) = 1 \<and>
   length (editorNavigationStack
     (handleEventInEditorNavigationStack env0 afterFirstSelection
        (Some (selectionPane (plainEditor 2) (Some 5))) (Some NAVIGATION))) = 1 \<and>
   \<not> justifiesNewNavigationEntry env0
     \<lparr>ess_editor = plainEditor 2, ess_selection = Some 5, ess_reason = Some USER\<rparr>
     \<lparr>ess_editor = plainEditor 2, ess_selection = Some 5, ess_reason = Some USER\<rparr> \<and>
   currentEditorSelectionState (clear afterFirstSelection) =
     Some \<lparr>ess_editor = plainEditor 2, ess_selection = Some 5, ess_reason = Some USER\<rparr> \<and>
   length (editorNavigationStack (clear afterFirstSelection)) = 0 \<and>
   length (editorNavigationStack
     (handleEventInEditorNavigationStack env0 (clear afterFirstSelection)
        (Some (selectionPane (plainEditor 2) (Some 5))) (Some USER))) = 1"
proof -
  note f = afterFirstSelection_fields
  have j1: "justifiesNewNavigationEntry env0
     \<lparr>ess_editor = plainEditor 2, ess_selection = Some 5, ess_reason = Some USER\<rparr>
     \<lparr>ess_editor = plainEditor 2, ess_selection = Some 5, ess_reason = Some NAVIGATION\<rparr>"
    by (simp add: justifiesNewNavigationEntry_def)
  have j2: "\<not> justifiesNewNavigationEntry env0
     \<lparr>ess_editor = plainEditor 2, ess_selection = Some 5, ess_reason = Some USER\<rparr>
     \<lparr>ess_editor = plainEditor 2, ess_selection = Some 5, ess_reason = Some USER\<rparr>"
    by (simp add: justifiesNewNavigationEntry_def EditorInput_matches_def env0_def)
  have inv1: "nav_inv afterFirstSelection"
    by (simp add: nav_inv_def f MAX_EDITOR_NAVIGATION_STACK_ITEMS_def)
  have r1: "shouldReplaceStackEntry env0 afterFirstSelection (Typed (plainEditor 2)) (Some 5) False"
    by (simp add: shouldReplaceStackEntry_def f array_at_def shouldReplaceEditorPaneSelection_def
        EditorInput_matches_def env0_def)
  have s1: "length (editorNavigationStack
     (handleEventInEditorNavigationStack env0 afterFirstSelection
        (Some (selectionPane (plainEditor 2) (Some 5))) (Some NAVIGATION))) = 1"
    unfolding handleEvent_selectionPane [OF f(5)]
      handleSelectionAware_stack [OF f(5) inv1 plain_prefer]
    by (simp add: f j1 r1 selectionPane_selection)
  have c: "editorNavigationStack (clear afterFirstSelection) = []"
    "editorNavigationStackIndex (clear afterFirstSelection) = -1"
    "lastEditorNavigationStackIndex (clear afterFirstSelection) = -1"
    "currentEditorSelectionState (clear afterFirstSelection) =
       Some \<lparr>ess_editor = plainEditor 2, ess_selection = Some 5, ess_reason = Some USER\<rparr>"
    "\<not> navigatingInEditorStack (clear afterFirstSelection)"
    by (simp_all add: clear_def clearRecentlyOpened_def f)
  have inv2: "nav_inv (clear afterFirstSelection)"
    by (simp add: nav_inv_def c MAX_EDITOR_NAVIGATION_STACK_ITEMS_def)
  have r2: "\<not> shouldReplaceStackEntry env0 (clear afterFirstSelection) (Typed (plainEditor 2))
      (Some 5) True"
    by (simp add: shouldReplaceStackEntry_def c array_at_def)
  have s2: "length (editorNavigationStack
     (handleEventInEditorNavigationStack env0 (clear afterFirstSelection)
        (Some (selectionPane (plainEditor 2) (Some 5))) (Some USER))) = 1"
    unfolding handleEvent_selectionPane [OF c(5)]
      handleSelectionAware_stack [OF c(5) inv2 plain_prefer]
    by (simp add: c j2 r2 selectionPane_selection)
  from j1 j2 s1 s2 f c show ?thesis by simp
qed

text \<open>
  C2, amended. \<^verbatim>\<open>justifiesNewNavigationEntry\<close> holds exactly when the candidate's reason
  is \<open>NAVIGATION\<close>, or the two editors do not match, or either state has no selection,
  or the candidate's selection compares \<open>DIFFERENT\<close> to the current one. Outside stack
  navigation, in every state, a selection event pushes a new entry when the cursor has
  no entry, or when there is no current state or a new entry is justified and the entry
  at the cursor does not absorb the event (it absorbs it when it matches the editor and
  has no selection or a selection that compares \<open>IDENTICAL\<close> to the new one); in every
  other case the entry at the cursor is replaced and the cursor stays. The candidate
  becomes the current state. The push is the one of \<^verbatim>\<open>doAddOrReplaceInEditorNavigationStack\<close>:
  where the stack invariant holds, the entries up to the cursor followed by the new
  entry, without the entry at index 0 when the stack is full with the cursor on its last
  entry. Two consecutive selection events on the same editor, outside stack navigation
  and starting from an empty stack with the cursor at -1, whatever the current state,
  leave exactly one entry when the second event's reason is not \<open>NAVIGATION\<close> and its
  selection does not compare \<open>DIFFERENT\<close> to the first, or when the stored entry
  matches the editor and the first selection compares \<open>IDENTICAL\<close> to the second;
  otherwise they leave exactly two.
\<close>

theorem selection_event_push_or_replace:
  "justifiesNewNavigationEntry env this other =
     (ess_reason other = Some NAVIGATION \<or>
      \<not> EditorInput_matches (ess_editor this) (ess_editor other) \<or>
      ess_selection this = None \<or> ess_selection other = None \<or>
      (\<exists>a b. ess_selection this = Some a \<and> ess_selection other = Some b \<and>
             selection_compare env b a = DIFFERENT)) \<and>
   (\<not> navigatingInEditorStack st \<longrightarrow>
      (let candidate = \<lparr>ess_editor = editor, ess_selection = pane_getSelection editorPane,
                        ess_reason = event\<rparr>;
           entry = \<lparr>ews_editor = storedEntry env editor,
                    ews_selection = pane_getSelection editorPane\<rparr>;
           pushed = fst (addAfterIndex st entry);
           st' = handleSelectionAwareEditorEventInEditorNavigationStack env st editorPane editor
                   event
       in editorNavigationStack st' =
            (case array_at (editorNavigationStack st) (editorNavigationStackIndex st) of
               None \<Rightarrow> editorNavigationStack pushed
             | Some currentEntry \<Rightarrow>
                 if (case currentEditorSelectionState st of
                       None \<Rightarrow> True
                     | Some current \<Rightarrow> justifiesNewNavigationEntry env current candidate) \<and>
                    \<not> (matches env (of_ref (ews_editor currentEntry)) (Typed editor) \<and>
                       shouldReplaceEditorPaneSelection env currentEntry
                         (pane_getSelection editorPane))
                 then editorNavigationStack pushed
                 else (editorNavigationStack st)[nat (editorNavigationStackIndex st) := entry]) \<and>
          editorNavigationStackIndex st' =
            (case array_at (editorNavigationStack st) (editorNavigationStackIndex st) of
               None \<Rightarrow> editorNavigationStackIndex pushed
             | Some currentEntry \<Rightarrow>
                 if (case currentEditorSelectionState st of
                       None \<Rightarrow> True
                     | Some current \<Rightarrow> justifiesNewNavigationEntry env current candidate) \<and>
                    \<not> (matches env (of_ref (ews_editor currentEntry)) (Typed editor) \<and>
                       shouldReplaceEditorPaneSelection env currentEntry
                         (pane_getSelection editorPane))
                 then editorNavigationStackIndex pushed
                 else editorNavigationStackIndex st) \<and>
          currentEditorSelectionState st' = Some candidate)) \<and>
   (nav_inv st \<longrightarrow>
      editorNavigationStack (fst (addAfterIndex st newEntry)) =
        (if length (editorNavigationStack st) = 50 \<and> editorNavigationStackIndex st = 49
         then tl (editorNavigationStack st) @ [newEntry]
         else take (nat (editorNavigationStackIndex st + 1)) (editorNavigationStack st) @
                [newEntry]) \<and>
      editorNavigationStackIndex (fst (addAfterIndex st newEntry)) =
        (if length (editorNavigationStack st) = 50 \<and> editorNavigationStackIndex st = 49
         then 49 else editorNavigationStackIndex st + 1)) \<and>
   (editorNavigationStack st0 = [] \<and> editorNavigationStackIndex st0 = -1 \<and>
    \<not> navigatingInEditorStack st0 \<longrightarrow>
      editorNavigationStack
        (handleEventInEditorNavigationStack env
           (handleEventInEditorNavigationStack env st0 (Some (selectionPane editor (Some s1))) r1)
           (Some (selectionPane editor (Some s2))) r2) =
        (if (r2 \<noteq> Some NAVIGATION \<and> selection_compare env s2 s1 \<noteq> DIFFERENT) \<or>
            (matches env (of_ref (storedEntry env editor)) (Typed editor) \<and>
             selection_compare env s1 s2 = IDENTICAL)
         then [\<lparr>ews_editor = storedEntry env editor, ews_selection = Some s2\<rparr>]
         else [\<lparr>ews_editor = storedEntry env editor, ews_selection = Some s1\<rparr>,
               \<lparr>ews_editor = storedEntry env editor, ews_selection = Some s2\<rparr>]))"
proof (intro conjI impI; (elim conjE)?)
  show "justifiesNewNavigationEntry env this other =
     (ess_reason other = Some NAVIGATION \<or>
      \<not> EditorInput_matches (ess_editor this) (ess_editor other) \<or>
      ess_selection this = None \<or> ess_selection other = None \<or>
      (\<exists>a b. ess_selection this = Some a \<and> ess_selection other = Some b \<and>
             selection_compare env b a = DIFFERENT))"
    by (rule justifies_iff)
next
  assume nonav: "\<not> navigatingInEditorStack st"
  note f = handleSelectionAware_fields [OF nonav storedEntry_prefer]
  show "let candidate = \<lparr>ess_editor = editor, ess_selection = pane_getSelection editorPane,
                        ess_reason = event\<rparr>;
           entry = \<lparr>ews_editor = storedEntry env editor,
                    ews_selection = pane_getSelection editorPane\<rparr>;
           pushed = fst (addAfterIndex st entry);
           st' = handleSelectionAwareEditorEventInEditorNavigationStack env st editorPane editor
                   event
       in editorNavigationStack st' =
            (case array_at (editorNavigationStack st) (editorNavigationStackIndex st) of
               None \<Rightarrow> editorNavigationStack pushed
             | Some currentEntry \<Rightarrow>
                 if (case currentEditorSelectionState st of
                       None \<Rightarrow> True
                     | Some current \<Rightarrow> justifiesNewNavigationEntry env current candidate) \<and>
                    \<not> (matches env (of_ref (ews_editor currentEntry)) (Typed editor) \<and>
                       shouldReplaceEditorPaneSelection env currentEntry
                         (pane_getSelection editorPane))
                 then editorNavigationStack pushed
                 else (editorNavigationStack st)[nat (editorNavigationStackIndex st) := entry]) \<and>
          editorNavigationStackIndex st' =
            (case array_at (editorNavigationStack st) (editorNavigationStackIndex st) of
               None \<Rightarrow> editorNavigationStackIndex pushed
             | Some currentEntry \<Rightarrow>
                 if (case currentEditorSelectionState st of
                       None \<Rightarrow> True
                     | Some current \<Rightarrow> justifiesNewNavigationEntry env current candidate) \<and>
                    \<not> (matches env (of_ref (ews_editor currentEntry)) (Typed editor) \<and>
                       shouldReplaceEditorPaneSelection env currentEntry
                         (pane_getSelection editorPane))
                 then editorNavigationStackIndex pushed
                 else editorNavigationStackIndex st) \<and>
          currentEditorSelectionState st' = Some candidate"
  proof (cases "array_at (editorNavigationStack st) (editorNavigationStackIndex st)")
    case None
    then show ?thesis
      unfolding Let_def f
      by (simp add: shouldReplaceStackEntry_def handleSelectionAware_unfold [OF nonav])
  next
    case (Some currentEntry)
    then show ?thesis
      unfolding Let_def f
      by (cases "currentEditorSelectionState st")
         (auto simp add: shouldReplaceStackEntry_def handleSelectionAware_unfold [OF nonav])
  qed
next
  assume inv: "nav_inv st"
  show "editorNavigationStack (fst (addAfterIndex st newEntry)) =
        (if length (editorNavigationStack st) = 50 \<and> editorNavigationStackIndex st = 49
         then tl (editorNavigationStack st) @ [newEntry]
         else take (nat (editorNavigationStackIndex st + 1)) (editorNavigationStack st) @
                [newEntry])"
    using inv by (rule addAfterIndex_result(1))
  show "editorNavigationStackIndex (fst (addAfterIndex st newEntry)) =
        (if length (editorNavigationStack st) = 50 \<and> editorNavigationStackIndex st = 49
         then 49 else editorNavigationStackIndex st + 1)"
    using inv by (rule addAfterIndex_result(2))
next
  assume "editorNavigationStack st0 = []" "editorNavigationStackIndex st0 = -1"
    "\<not> navigatingInEditorStack st0"
  then show "editorNavigationStack
        (handleEventInEditorNavigationStack env
           (handleEventInEditorNavigationStack env st0 (Some (selectionPane editor (Some s1))) r1)
           (Some (selectionPane editor (Some s2))) r2) =
        (if (r2 \<noteq> Some NAVIGATION \<and> selection_compare env s2 s1 \<noteq> DIFFERENT) \<or>
            (matches env (of_ref (storedEntry env editor)) (Typed editor) \<and>
             selection_compare env s1 s2 = IDENTICAL)
         then [\<lparr>ews_editor = storedEntry env editor, ews_selection = Some s2\<rparr>]
         else [\<lparr>ews_editor = storedEntry env editor, ews_selection = Some s1\<rparr>,
               \<lparr>ews_editor = storedEntry env editor, ews_selection = Some s2\<rparr>])"
    using storedEntry_prefer by (rule second_selection_event)
qed

theorem selection_event_push_or_replace_witness:
  "editorNavigationStack
     (handleEventInEditorNavigationStack env0
        (handleEventInEditorNavigationStack env0 initial_state
           (Some (selectionPane (plainEditor 2) (Some 5))) (Some USER))
        (Some (selectionPane (plainEditor 2) (Some 5))) (Some USER)) =
     [\<lparr>ews_editor = Typed (plainEditor 2), ews_selection = Some 5\<rparr>] \<and>
   editorNavigationStack
     (handleEventInEditorNavigationStack env0
        (handleEventInEditorNavigationStack env0 (clear afterFirstSelection)
           (Some (selectionPane (plainEditor 2) (Some 5))) (Some USER))
        (Some (selectionPane (plainEditor 2) (Some 9))) (Some USER)) =
     [\<lparr>ews_editor = Typed (plainEditor 2), ews_selection = Some 5\<rparr>,
      \<lparr>ews_editor = Typed (plainEditor 2), ews_selection = Some 9\<rparr>] \<and>
   editorNavigationStack
     (handleSelectionAwareEditorEventInEditorNavigationStack env0 afterFirstSelection
        (selectionPane (plainEditor 2) (Some 9)) (plainEditor 2) (Some USER)) =
     [\<lparr>ews_editor = Typed (plainEditor 2), ews_selection = Some 5\<rparr>,
      \<lparr>ews_editor = Typed (plainEditor 2), ews_selection = Some 9\<rparr>] \<and>
   editorNavigationStackIndex
     (handleSelectionAwareEditorEventInEditorNavigationStack env0 afterFirstSelection
        (selectionPane (plainEditor 2) (Some 9)) (plainEditor 2) (Some USER)) = 1"
proof -
  note f = afterFirstSelection_fields
  have init: "editorNavigationStack (initial_state :: nat state) = []"
    "editorNavigationStackIndex (initial_state :: nat state) = -1"
    "\<not> navigatingInEditorStack (initial_state :: nat state)"
    by (simp_all add: initial_state_def)
  have c: "editorNavigationStack (clear afterFirstSelection) = []"
    "editorNavigationStackIndex (clear afterFirstSelection) = -1"
    "\<not> navigatingInEditorStack (clear afterFirstSelection)"
    by (simp_all add: clear_def clearRecentlyOpened_def f)
  have inv1: "nav_inv afterFirstSelection"
    by (simp add: nav_inv_def f MAX_EDITOR_NAVIGATION_STACK_ITEMS_def)
  have cmp: "selection_compare env0 (5::nat) 5 = IDENTICAL"
    "selection_compare env0 (9::nat) 5 = DIFFERENT"
    "selection_compare env0 (5::nat) 9 = DIFFERENT"
    by (simp_all add: env0_def)
  have j: "justifiesNewNavigationEntry env0
      \<lparr>ess_editor = plainEditor 2, ess_selection = Some 5, ess_reason = Some USER\<rparr>
      \<lparr>ess_editor = plainEditor 2, ess_selection = Some 9, ess_reason = Some USER\<rparr>"
    by (simp add: justifiesNewNavigationEntry_def cmp)
  let ?entry = "\<lparr>ews_editor = Typed (plainEditor 2), ews_selection = Some (9::nat)\<rparr>"
  note t1 = selection_event_push_or_replace [where env = env0 and st = afterFirstSelection
      and editor = "plainEditor 2" and st0 = initial_state and newEntry = ?entry
      and ?s1.0 = 5 and ?s2.0 = 5 and ?r1.0 = "Some USER" and ?r2.0 = "Some USER"
      and editorPane = "selectionPane (plainEditor 2) (Some 9)" and event = "Some USER"]
  note t2 = selection_event_push_or_replace [where env = env0 and st = afterFirstSelection
      and editor = "plainEditor 2" and st0 = "clear afterFirstSelection" and newEntry = ?entry
      and ?s1.0 = 5 and ?s2.0 = 9 and ?r1.0 = "Some USER" and ?r2.0 = "Some USER"
      and editorPane = "selectionPane (plainEditor 2) (Some 9)" and event = "Some USER"]
  have pushed: "editorNavigationStack (fst (addAfterIndex afterFirstSelection ?entry)) =
      [\<lparr>ews_editor = Typed (plainEditor 2), ews_selection = Some 5\<rparr>, ?entry]"
    "editorNavigationStackIndex (fst (addAfterIndex afterFirstSelection ?entry)) = 1"
    using conjunct1 [OF conjunct2 [OF conjunct2 [OF t1]]] inv1
    by (simp_all add: f)
  have one: "editorNavigationStack
     (handleEventInEditorNavigationStack env0
        (handleEventInEditorNavigationStack env0 initial_state
           (Some (selectionPane (plainEditor 2) (Some 5))) (Some USER))
        (Some (selectionPane (plainEditor 2) (Some 5))) (Some USER)) =
     [\<lparr>ews_editor = Typed (plainEditor 2), ews_selection = Some 5\<rparr>]"
    using conjunct2 [OF conjunct2 [OF conjunct2 [OF t1]]] init
    by (simp add: cmp storedEntry_plain del: matches.simps)
  have two: "editorNavigationStack
     (handleEventInEditorNavigationStack env0
        (handleEventInEditorNavigationStack env0 (clear afterFirstSelection)
           (Some (selectionPane (plainEditor 2) (Some 5))) (Some USER))
        (Some (selectionPane (plainEditor 2) (Some 9))) (Some USER)) =
     [\<lparr>ews_editor = Typed (plainEditor 2), ews_selection = Some 5\<rparr>,
      \<lparr>ews_editor = Typed (plainEditor 2), ews_selection = Some 9\<rparr>]"
    using conjunct2 [OF conjunct2 [OF conjunct2 [OF t2]]] c
    by (simp add: cmp storedEntry_plain del: matches.simps)
  have absorb: "\<not> shouldReplaceEditorPaneSelection env0
      \<lparr>ews_editor = Typed (plainEditor 2), ews_selection = Some 5\<rparr> (Some 9)"
    by (simp add: shouldReplaceEditorPaneSelection_def cmp)
  have at: "array_at (editorNavigationStack afterFirstSelection)
      (editorNavigationStackIndex afterFirstSelection) =
      Some \<lparr>ews_editor = Typed (plainEditor 2), ews_selection = Some 5\<rparr>"
    by (simp add: f array_at_def)
  have three: "editorNavigationStack
     (handleSelectionAwareEditorEventInEditorNavigationStack env0 afterFirstSelection
        (selectionPane (plainEditor 2) (Some 9)) (plainEditor 2) (Some USER)) =
     [\<lparr>ews_editor = Typed (plainEditor 2), ews_selection = Some 5\<rparr>,
      \<lparr>ews_editor = Typed (plainEditor 2), ews_selection = Some 9\<rparr>] \<and>
   editorNavigationStackIndex
     (handleSelectionAwareEditorEventInEditorNavigationStack env0 afterFirstSelection
        (selectionPane (plainEditor 2) (Some 9)) (plainEditor 2) (Some USER)) = 1"
    using conjunct1 [OF conjunct2 [OF t1]] f(5)
    unfolding Let_def selectionPane_selection storedEntry_plain at f(4)
    by (simp add: j absorb pushed del: matches.simps)
  from one two three show ?thesis by simp
qed

section \<open>The global history\<close>































section \<open>Reopening closed editors\<close>

















section \<open>The invariant of the navigation stack holds in every reachable state\<close>

lemma same_nav_refl [simp]: "same_nav st st"
  by (simp add: same_nav_def)

lemma same_nav_trans: "same_nav st2 st1 \<Longrightarrow> same_nav st1 st \<Longrightarrow> same_nav st2 st"
  by (simp add: same_nav_def)

lemma same_nav_inv: "same_nav st' st \<Longrightarrow> nav_inv st \<Longrightarrow> nav_inv st'"
  by (simp add: same_nav_def nav_inv_def)

lemma same_nav_addToLoadedHistory:
  "same_nav (addToLoadedHistory env st editor insertFirst) st"
  by (simp add: same_nav_def addToLoadedHistory_def Let_def split: option.splits)

lemma same_nav_loadHistory_opened:
  "same_nav (fst (foldl
              (\<lambda>(s, handled) editor.
                 if \<not> includeInHistory env (Typed editor) then (s, handled)
                 else (addToLoadedHistory env s (Typed editor) True,
                       (case ei_resource editor of
                          None \<Rightarrow> handled
                        | Some r \<Rightarrow> handled @ [handledKey env r (ei_editorId editor)])))
              acc editors)) (fst acc)"
  (is "same_nav (fst (foldl ?F acc editors)) (fst acc)")
proof (induction editors arbitrary: acc)
  case Nil
  show ?case by simp
next
  case (Cons editor editors)
  have step: "same_nav (fst (?F acc editor)) (fst acc)"
    by (cases acc) (simp add: same_nav_addToLoadedHistory)
  show ?case
    unfolding foldl_Cons
    by (rule same_nav_trans [OF Cons.IH step])
qed

lemma same_nav_loadHistory_stored:
  "same_nav (foldl
              (\<lambda>s editor.
                 if handledKey env (ri_resource editor) (ri_override editor) \<notin> set handledEditors
                 then addToLoadedHistory env s (Untyped editor) False
                 else s)
              s stored) s"
  (is "same_nav (foldl ?F s stored) s")
proof (induction stored arbitrary: s)
  case Nil
  show ?case by simp
next
  case (Cons editor stored)
  have step: "same_nav (?F s editor) s"
    by (simp add: same_nav_addToLoadedHistory)
  show ?case
    unfolding foldl_Cons
    by (rule same_nav_trans [OF Cons.IH step])
qed

lemma same_nav_loadHistory: "same_nav (loadHistory env st) st"
proof -
  let ?acc = "(st\<lparr>history := Some []\<rparr>, [] :: string list)"
  have a: "same_nav (fst ?acc) st"
    by (simp add: same_nav_def)
  show ?thesis
    unfolding loadHistory_def Let_def
    by (simp only: split_beta)
       (rule same_nav_trans [OF same_nav_loadHistory_stored
          same_nav_trans [OF same_nav_loadHistory_opened a]])
qed

lemma same_nav_ensureHistoryLoaded: "same_nav (ensureHistoryLoaded env st) st"
proof (cases "history st")
  case None
  have "same_nav (st\<lparr>history := Some []\<rparr>) st"
    by (simp add: same_nav_def)
  with None same_nav_loadHistory [of env "st\<lparr>history := Some []\<rparr>"] show ?thesis
    by (auto simp add: ensureHistoryLoaded_def intro: same_nav_trans)
next
  case (Some h)
  then show ?thesis by (simp add: ensureHistoryLoaded_def)
qed

lemma same_nav_removeFromHistory: "same_nav (snd (removeFromHistory env st arg1)) st"
  using same_nav_ensureHistoryLoaded [of env st]
  by (simp add: removeFromHistory_def Let_def same_nav_def)

lemma same_nav_addToHistory: "same_nav (addToHistory env st editor insertFirst) st"
  unfolding addToHistory_def
  by (rule same_nav_trans [OF same_nav_addToLoadedHistory same_nav_ensureHistoryLoaded])

lemma same_nav_replaceInHistory:
  "same_nav (replaceInHistory env st editor replacements) st"
  using same_nav_ensureHistoryLoaded [of env st]
  by (simp add: replaceInHistory_def Let_def split_beta same_nav_def)

lemma same_nav_updateHistoryOnEditorDispose:
  "same_nav (updateHistoryOnEditorDispose env st editor) st"
  by (simp add: updateHistoryOnEditorDispose_def Let_def same_nav_removeFromHistory
      same_nav_replaceInHistory split: option.splits prod.splits)

lemma same_nav_removeExcludedFromHistory:
  "same_nav (removeExcludedFromHistory env st) st"
  using same_nav_ensureHistoryLoaded [of env st]
  by (simp add: removeExcludedFromHistory_def Let_def same_nav_def)

lemma same_nav_handleEditorEventInHistory:
  "same_nav (handleEditorEventInHistory env st editorPane) st"
  by (auto simp add: handleEditorEventInHistory_def split: option.splits
      intro: same_nav_trans [OF same_nav_addToHistory same_nav_removeFromHistory])

lemma same_nav_moveInHistory: "same_nav (moveInHistory env st event) st"
proof -
  obtain removed st1 where r: "removeFromHistory env st (OfFileOperation event) = (removed, st1)"
    by (cases "removeFromHistory env st (OfFileOperation event)")
  with same_nav_removeFromHistory [of env st "OfFileOperation event"]
  have s1: "same_nav st1 st" by simp
  show ?thesis
    unfolding moveInHistory_def r
    by (auto simp add: s1 split: option.splits
        intro: same_nav_trans [OF same_nav_addToHistory s1])
qed

lemma same_nav_onDidCloseEditor:
  "same_nav (onDidCloseEditor env st event newRecord) st"
  by (simp add: same_nav_def onDidCloseEditor_def removeFromRecentlyClosedEditors_def Let_def
      split: option.splits)

lemma same_nav_removeFromRecentlyClosedEditors:
  "same_nav (removeFromRecentlyClosedEditors env st arg1) st"
  by (simp add: same_nav_def removeFromRecentlyClosedEditors_def)

lemma same_nav_reopen:
  "same_nav (reopenLastClosedEditor env st) st"
  "same_nav (doReopenLastClosedEditor env st r) st"
proof (induction env st and env st r rule: reopenLastClosedEditor_doReopenLastClosedEditor.induct)
  case (1 env st)
  show ?case
  proof (cases "recentlyClosedEditors st = []")
    case True
    then show ?thesis by (simp add: reopenLastClosedEditor.simps)
  next
    case False
    from 1 [OF False] False show ?thesis
      by (subst reopenLastClosedEditor.simps) (simp add: same_nav_def)
  qed
next
  case (2 env st lastClosedEditor)
  let ?contained = "activeGroup_contains env (rc_editor lastClosedEditor)"
  let ?pane = "\<not> ?contained \<and> openEditor_yieldsPane env (reopenRequest env lastClosedEditor)"
  show ?case
  proof (cases ?pane)
    case True
    then show ?thesis
      by (subst doReopenLastClosedEditor.simps) (simp add: Let_def same_nav_def)
  next
    case False
    note ih = 2 [OF refl refl refl False]
    from ih False show ?thesis
      by (subst doReopenLastClosedEditor.simps) (cases ?contained; simp add: Let_def same_nav_def)
  qed
qed

lemma same_nav_lastEdit:
  "same_nav (rememberLastEditLocation st editorPane) st"
  "same_nav (openLastEditLocation st) st"
  "same_nav (navigate_finally st) st"
  by (simp_all add: same_nav_def rememberLastEditLocation_def openLastEditLocation_def
      navigate_finally_def split: option.splits)

lemma nav_inv_navigate:
  "nav_inv (navigate st) = nav_inv st"
  by (simp add: navigate_def nav_inv_def split: option.splits)

lemma nav_inv_forward:
  assumes "nav_inv st"
  shows "nav_inv (forward st)"
  using assms
  by (auto simp add: forward_def nav_inv_navigate)
     (auto simp add: nav_inv_def setIndex_def split: if_splits)

lemma nav_inv_back:
  assumes "nav_inv st"
  shows "nav_inv (back_nav st)"
  using assms
  by (auto simp add: back_nav_def nav_inv_navigate)
     (auto simp add: nav_inv_def setIndex_def split: if_splits)

lemma nav_inv_last:
  assumes "nav_inv st"
  shows "nav_inv (last_nav st)"
proof (cases "lastEditorNavigationStackIndex st = -1")
  case True
  with assms show ?thesis by (simp add: last_nav_def nav_inv_back)
next
  case False
  with assms show ?thesis
    by (simp add: last_nav_def nav_inv_navigate)
       (auto simp add: nav_inv_def setIndex_def split: if_splits)
qed

lemma nav_inv_addTo:
  assumes "nav_inv st"
  shows "nav_inv (addToEditorNavigationStack env st editor selection)"
    and "nav_inv (replaceInEditorNavigationStack env st editor selection)"
  using assms
  by (simp_all add: addToEditorNavigationStack_def replaceInEditorNavigationStack_def
      nav_inv_doAdd)

lemma nav_inv_current:
  "nav_inv (st\<lparr>currentEditorSelectionState := c\<rparr>) = nav_inv st"
  by (simp add: nav_inv_def)

lemma nav_inv_handleEvent:
  assumes "nav_inv st"
  shows "nav_inv (handleEventInEditorNavigationStack env st editorPane event)"
  using assms
  by (auto simp add: handleEventInEditorNavigationStack_def
      handleSelectionAwareEditorEventInEditorNavigationStack_def
      handleNonSelectionAwareEditorEventInEditorNavigationStack_def
      Let_def nav_inv_current nav_inv_addTo
      split: option.splits)

lemma nav_inv_removeFrom:
  "nav_inv st \<Longrightarrow> nav_inv (snd (removeFromEditorNavigationStack env st arg1))"
proof -
  assume inv: "nav_inv st"
  let ?kept = "filter (\<lambda>entry. \<not> matches env arg1 (ews_editor entry)) (editorNavigationStack st)"
  have "length ?kept \<le> 50"
    by (rule order_trans [OF length_filter_le nav_inv_cursor(3) [OF inv]])
  then show ?thesis
    by (cases ?kept)
       (simp_all add: removeFromEditorNavigationStack_def Let_def nav_inv_def
          MAX_EDITOR_NAVIGATION_STACK_ITEMS_def)
qed

lemma nav_inv_moveIn:
  assumes "nav_inv st"
  shows "nav_inv (moveInEditorNavigationStack env st event)"
proof -
  obtain removed st1 where
    r: "removeFromEditorNavigationStack env st (OfFileOperation event) = (removed, st1)"
    by (cases "removeFromEditorNavigationStack env st (OfFileOperation event)")
  with nav_inv_removeFrom [OF assms, of env "OfFileOperation event"]
  have "nav_inv st1" by simp
  then show ?thesis
    unfolding moveInEditorNavigationStack_def r
    by (auto simp add: nav_inv_addTo split: option.splits)
qed

lemma nav_inv_clear: "nav_inv (clear st)"
  by (simp add: clear_def clearRecentlyOpened_def nav_inv_def)

lemma nav_inv_initial: "nav_inv initial_state"
  by (simp add: initial_state_def nav_inv_def)

lemma nav_inv_remove_arg:
  assumes "nav_inv st"
  shows "nav_inv (remove_arg env st arg1)"
  unfolding remove_arg_def Let_def
  by (intro same_nav_inv [OF same_nav_removeFromRecentlyClosedEditors] nav_inv_removeFrom
      same_nav_inv [OF same_nav_removeFromHistory] assms)

lemma nav_inv_move:
  assumes "nav_inv st"
  shows "nav_inv (move env st event)"
  unfolding move_def
  by (intro nav_inv_moveIn same_nav_inv [OF same_nav_moveInHistory] assms)

lemma nav_inv_onDidFilesChange:
  assumes "nav_inv st"
  shows "nav_inv (onDidFilesChange env st event)"
  using assms
  by (cases event) (simp_all add: nav_inv_remove_arg nav_inv_move)

lemma nav_inv_handleActiveEditorChange:
  assumes "nav_inv st"
  shows "nav_inv (handleActiveEditorChange env st editorPane)"
  unfolding handleActiveEditorChange_def
  by (intro nav_inv_handleEvent same_nav_inv [OF same_nav_handleEditorEventInHistory] assms)

lemma nav_inv_onDidChangeSelection:
  assumes "nav_inv st"
  shows "nav_inv (onDidChangeSelection env st activeEditorPane mergedEvent)"
  using nav_inv_handleEvent [OF assms, of env "Some activeEditorPane" "Some mergedEvent"]
  by (auto simp add: onDidChangeSelection_def Let_def intro: same_nav_inv [OF same_nav_lastEdit(1)])

text \<open>
  In every reachable state the navigation stack holds at most 50 entries, its cursor is
  -1 on an empty stack and on an entry otherwise, and its last cursor is -1 or on an
  entry.
\<close>

lemma reachable_nav_inv:
  assumes "reachable st"
  shows "nav_inv st"
  using assms
proof (induction rule: reachable.induct)
  case reachable_initial
  show ?case by (rule nav_inv_initial)
next
  case (reachable_activeEditorChange st env editorPane)
  then show ?case by (simp add: nav_inv_handleActiveEditorChange)
next
  case (reachable_selectionChange st env activeEditorPane mergedEvent)
  then show ?case by (simp add: nav_inv_onDidChangeSelection)
next
  case (reachable_forward st)
  then show ?case by (simp add: nav_inv_forward)
next
  case (reachable_back st)
  then show ?case by (simp add: nav_inv_back)
next
  case (reachable_last st)
  then show ?case by (simp add: nav_inv_last)
next
  case (reachable_navigated st)
  then show ?case by (simp add: same_nav_inv [OF same_nav_lastEdit(3)])
next
  case (reachable_filesChange st env event)
  then show ?case by (simp add: nav_inv_onDidFilesChange)
next
  case (reachable_openFailed st env editor)
  then show ?case by (simp add: nav_inv_remove_arg)
next
  case (reachable_editorClosed st newRecord env event)
  then show ?case by (simp add: same_nav_inv [OF same_nav_onDidCloseEditor])
next
  case (reachable_stackEditorDisposed st env editor)
  then show ?case by (simp add: nav_inv_removeFrom)
next
  case (reachable_historyEditorDisposed st env editor)
  then show ?case by (simp add: same_nav_inv [OF same_nav_updateHistoryOnEditorDispose])
next
  case (reachable_excludeChanged st env)
  then show ?case by (simp add: same_nav_inv [OF same_nav_removeExcludedFromHistory])
next
  case (reachable_removeFromHistory st env arg1)
  then show ?case by (simp add: same_nav_inv [OF same_nav_removeFromHistory])
next
  case (reachable_getHistory st env)
  then show ?case by (simp add: same_nav_inv [OF same_nav_ensureHistoryLoaded])
next
  case (reachable_groupsReady st env)
  then show ?case by (simp add: same_nav_inv [OF same_nav_loadHistory])
next
  case (reachable_clear st)
  show ?case by (rule nav_inv_clear)
next
  case (reachable_clearRecentlyOpened st)
  then show ?case by (simp add: nav_inv_def clearRecentlyOpened_def)
next
  case (reachable_reopen st env)
  then show ?case by (simp add: same_nav_inv [OF same_nav_reopen(1)])
next
  case (reachable_openLastEditLocation st)
  then show ?case by (simp add: same_nav_inv [OF same_nav_lastEdit(2)])
qed

section \<open>The invariant of the recently closed editors holds in every reachable state\<close>




























section \<open>The retry of reopening a closed editor\<close>




section \<open>The bound of the navigation stack\<close>

text \<open>
  C1, amended. The navigation stack never holds more than 50 entries: in every reachable
  state it holds at most 50, and its cursor is -1 when the stack is empty and addresses a
  valid index otherwise; every push or replacement keeps this invariant \<open>nav_inv\<close>, and
  after a qualifying push in a state that satisfies it the cursor addresses a valid index
  of the resulting stack, the one of the new entry. For every state with exactly 50
  entries whose cursor is on the last of them, a qualifying push evicts the entry at
  index 0 and appends the new entry; the cursor stays at 49, the last index of the
  result, and the last cursor goes down by one if it was not negative. For every state
  with exactly 50 entries whose cursor is on an entry before the last, a qualifying push
  drops the entries beyond the cursor instead and evicts nothing: the entry at index 0
  stays, the new entry follows the entry at the cursor, and the cursor moves onto it, a
  valid index of the result.
\<close>

theorem push_at_limit_evicts_oldest:
  "(reachable st0 \<longrightarrow>
      length (editorNavigationStack st0) \<le> 50 \<and>
      (if editorNavigationStack st0 = [] then editorNavigationStackIndex st0 = -1
       else 0 \<le> editorNavigationStackIndex st0 \<and>
            editorNavigationStackIndex st0 < int (length (editorNavigationStack st0)))) \<and>
   (nav_inv st \<longrightarrow>
      nav_inv (doAddOrReplaceInEditorNavigationStack env st editor selection forceReplace) \<and>
      length (editorNavigationStack
        (doAddOrReplaceInEditorNavigationStack env st editor selection forceReplace)) \<le> 50) \<and>
   (nav_inv st \<and> preferResourceEditorInput env editor = Some e \<and>
    \<not> shouldReplaceStackEntry env st editor selection forceReplace \<longrightarrow>
      0 \<le> editorNavigationStackIndex
        (doAddOrReplaceInEditorNavigationStack env st editor selection forceReplace) \<and>
      editorNavigationStackIndex
        (doAddOrReplaceInEditorNavigationStack env st editor selection forceReplace) <
        int (length (editorNavigationStack
          (doAddOrReplaceInEditorNavigationStack env st editor selection forceReplace))) \<and>
      editorNavigationStack
        (doAddOrReplaceInEditorNavigationStack env st editor selection forceReplace) !
        nat (editorNavigationStackIndex
          (doAddOrReplaceInEditorNavigationStack env st editor selection forceReplace)) =
        \<lparr>ews_editor = e, ews_selection = selection\<rparr>) \<and>
   (length (editorNavigationStack st) = 50 \<and> editorNavigationStackIndex st = 49 \<and>
    preferResourceEditorInput env editor = Some e \<and>
    \<not> shouldReplaceStackEntry env st editor selection forceReplace \<longrightarrow>
      editorNavigationStack
        (doAddOrReplaceInEditorNavigationStack env st editor selection forceReplace) =
        tl (editorNavigationStack st) @ [\<lparr>ews_editor = e, ews_selection = selection\<rparr>] \<and>
      length (editorNavigationStack
        (doAddOrReplaceInEditorNavigationStack env st editor selection forceReplace)) = 50 \<and>
      editorNavigationStackIndex
        (doAddOrReplaceInEditorNavigationStack env st editor selection forceReplace) = 49 \<and>
      lastEditorNavigationStackIndex
        (doAddOrReplaceInEditorNavigationStack env st editor selection forceReplace) =
        (if lastEditorNavigationStackIndex st \<ge> 0
         then lastEditorNavigationStackIndex st - 1
         else lastEditorNavigationStackIndex st)) \<and>
   (length (editorNavigationStack st) = 50 \<and>
    0 \<le> editorNavigationStackIndex st \<and> editorNavigationStackIndex st < 49 \<and>
    preferResourceEditorInput env editor = Some e \<and>
    \<not> shouldReplaceStackEntry env st editor selection forceReplace \<longrightarrow>
      editorNavigationStack
        (doAddOrReplaceInEditorNavigationStack env st editor selection forceReplace) =
        take (nat (editorNavigationStackIndex st + 1)) (editorNavigationStack st) @
          [\<lparr>ews_editor = e, ews_selection = selection\<rparr>] \<and>
      editorNavigationStack
        (doAddOrReplaceInEditorNavigationStack env st editor selection forceReplace) ! 0 =
        editorNavigationStack st ! 0 \<and>
      editorNavigationStackIndex
        (doAddOrReplaceInEditorNavigationStack env st editor selection forceReplace) =
        editorNavigationStackIndex st + 1 \<and>
      editorNavigationStackIndex
        (doAddOrReplaceInEditorNavigationStack env st editor selection forceReplace) <
        int (length (editorNavigationStack
          (doAddOrReplaceInEditorNavigationStack env st editor selection forceReplace))) \<and>
      lastEditorNavigationStackIndex
        (doAddOrReplaceInEditorNavigationStack env st editor selection forceReplace) =
        editorNavigationStackIndex st)"
proof (intro conjI impI; (elim conjE)?)
  assume "reachable st0"
  then have inv: "nav_inv st0"
    by (rule reachable_nav_inv)
  from inv show "length (editorNavigationStack st0) \<le> 50"
    by (rule nav_inv_cursor)
  from inv show "if editorNavigationStack st0 = [] then editorNavigationStackIndex st0 = -1
       else 0 \<le> editorNavigationStackIndex st0 \<and>
            editorNavigationStackIndex st0 < int (length (editorNavigationStack st0))"
    by (simp add: nav_inv_def)
next
  assume inv: "nav_inv st"
  let ?st' = "doAddOrReplaceInEditorNavigationStack env st editor selection forceReplace"
  show inv': "nav_inv ?st'"
    using inv by (rule nav_inv_doAdd)
  then show "length (editorNavigationStack ?st') \<le> 50"
    by (rule nav_inv_cursor)
next
  assume inv: "nav_inv st"
    and pref: "preferResourceEditorInput env editor = Some e"
    and push: "\<not> shouldReplaceStackEntry env st editor selection forceReplace"
  let ?st' = "doAddOrReplaceInEditorNavigationStack env st editor selection forceReplace"
  let ?entry = "\<lparr>ews_editor = e, ews_selection = selection\<rparr>"
  note eq = doAdd_push_fields(1,2) [OF pref push] addAfterIndex_result [OF inv]
  note c = nav_inv_cursor [OF inv]
  have all: "0 \<le> editorNavigationStackIndex ?st' \<and>
      editorNavigationStackIndex ?st' < int (length (editorNavigationStack ?st')) \<and>
      editorNavigationStack ?st' ! nat (editorNavigationStackIndex ?st') = ?entry"
  proof (cases "length (editorNavigationStack st) = 50 \<and> editorNavigationStackIndex st = 49")
    case True
    then have "length (tl (editorNavigationStack st)) = 49"
      by simp
    with True show ?thesis
      unfolding eq by (simp add: nth_append)
  next
    case False
    have "length (take (nat (editorNavigationStackIndex st + 1)) (editorNavigationStack st)) =
        nat (editorNavigationStackIndex st + 1)"
      using c by simp
    with False c show ?thesis
      unfolding eq by (simp add: nth_append)
  qed
  from all show "0 \<le> editorNavigationStackIndex ?st'" by simp
  from all show "editorNavigationStackIndex ?st' < int (length (editorNavigationStack ?st'))"
    by simp
  from all show "editorNavigationStack ?st' ! nat (editorNavigationStackIndex ?st') = ?entry"
    by simp
next
  assume full: "length (editorNavigationStack st) = 50"
    and tail: "editorNavigationStackIndex st = 49"
    and pref: "preferResourceEditorInput env editor = Some e"
    and push: "\<not> shouldReplaceStackEntry env st editor selection forceReplace"
  let ?st' = "doAddOrReplaceInEditorNavigationStack env st editor selection forceReplace"
  note eq = doAdd_push_fields [OF pref push] addAfterIndex_at_limit [OF full tail]
  show "editorNavigationStack ?st' =
          tl (editorNavigationStack st) @ [\<lparr>ews_editor = e, ews_selection = selection\<rparr>]"
    unfolding eq ..
  show "length (editorNavigationStack ?st') = 50"
    unfolding eq using full by simp
  show "editorNavigationStackIndex ?st' = 49"
    unfolding eq ..
  show "lastEditorNavigationStackIndex ?st' =
          (if lastEditorNavigationStackIndex st \<ge> 0
           then lastEditorNavigationStackIndex st - 1
           else lastEditorNavigationStackIndex st)"
    unfolding eq ..
next
  assume full: "length (editorNavigationStack st) = 50"
    and cur: "0 \<le> editorNavigationStackIndex st"
    and before: "editorNavigationStackIndex st < 49"
    and pref: "preferResourceEditorInput env editor = Some e"
    and push: "\<not> shouldReplaceStackEntry env st editor selection forceReplace"
  let ?st' = "doAddOrReplaceInEditorNavigationStack env st editor selection forceReplace"
  have lo: "-1 \<le> editorNavigationStackIndex st"
    and hi: "editorNavigationStackIndex st < int (length (editorNavigationStack st))"
    and len: "length (editorNavigationStack st) \<le> 50"
    and nf: "\<not> (length (editorNavigationStack st) = 50 \<and> editorNavigationStackIndex st = 49)"
    using full cur before by simp_all
  note eq = doAdd_push_fields [OF pref push] addAfterIndex_below_limit [OF lo hi len nf]
  show st': "editorNavigationStack ?st' =
          take (nat (editorNavigationStackIndex st + 1)) (editorNavigationStack st) @
            [\<lparr>ews_editor = e, ews_selection = selection\<rparr>]"
    unfolding eq ..
  show "editorNavigationStack ?st' ! 0 = editorNavigationStack st ! 0"
    unfolding st' using cur full by (simp add: nth_append)
  show "editorNavigationStackIndex ?st' = editorNavigationStackIndex st + 1"
    unfolding eq ..
  show "editorNavigationStackIndex ?st' < int (length (editorNavigationStack ?st'))"
    unfolding eq using cur hi by simp
  show "lastEditorNavigationStackIndex ?st' = editorNavigationStackIndex st"
    unfolding eq ..
qed

theorem push_at_limit_evicts_oldest_witness:
  "reachable (onDidChangeSelection env0 initial_state (selectionPane (plainEditor 2) (Some 5)) USER) \<and>
   length (editorNavigationStack
     (onDidChangeSelection env0 initial_state (selectionPane (plainEditor 2) (Some 5)) USER)) \<le> 50 \<and>
   nav_inv (fullStack 49 48) \<and>
   editorNavigationStack
     (doAddOrReplaceInEditorNavigationStack env0 (fullStack 49 48) (Typed (plainEditor 100))
        (Some 100) False) = map plainEntry [1..<50] @ [plainEntry 100] \<and>
   editorNavigationStackIndex
     (doAddOrReplaceInEditorNavigationStack env0 (fullStack 49 48) (Typed (plainEditor 100))
        (Some 100) False) = 49 \<and>
   lastEditorNavigationStackIndex
     (doAddOrReplaceInEditorNavigationStack env0 (fullStack 49 48) (Typed (plainEditor 100))
        (Some 100) False) = 47 \<and>
   editorNavigationStack
     (doAddOrReplaceInEditorNavigationStack env0 (fullStack 49 48) (Typed (plainEditor 100))
        (Some 100) False) !
     nat (editorNavigationStackIndex
       (doAddOrReplaceInEditorNavigationStack env0 (fullStack 49 48) (Typed (plainEditor 100))
          (Some 100) False)) = plainEntry 100 \<and>
   nav_inv (fullStack 48 49) \<and>
   editorNavigationStack
     (doAddOrReplaceInEditorNavigationStack env0 (fullStack 48 49) (Typed (plainEditor 100))
        (Some 100) False) = map plainEntry [0..<49] @ [plainEntry 100] \<and>
   editorNavigationStackIndex
     (doAddOrReplaceInEditorNavigationStack env0 (fullStack 48 49) (Typed (plainEditor 100))
        (Some 100) False) = 49 \<and>
   lastEditorNavigationStackIndex
     (doAddOrReplaceInEditorNavigationStack env0 (fullStack 48 49) (Typed (plainEditor 100))
        (Some 100) False) = 48"
proof -
  let ?r = "onDidChangeSelection env0 (initial_state :: nat state)
      (selectionPane (plainEditor 2) (Some 5)) USER"
  let ?e = "Typed (plainEditor 100)"
  have r: "reachable ?r"
    by (rule reachable_selectionChange [OF reachable_initial])
  have inv: "nav_inv (fullStack 49 48)"
    by (simp add: nav_inv_def fullStack_fields MAX_EDITOR_NAVIGATION_STACK_ITEMS_def)
  have inv2: "nav_inv (fullStack 48 49)"
    by (simp add: nav_inv_def fullStack_fields MAX_EDITOR_NAVIGATION_STACK_ITEMS_def)
  have nr: "\<not> shouldReplaceStackEntry env0 (fullStack 49 48) ?e (Some 100) False"
    by (rule fullStack_no_replace) simp_all
  have nr2: "\<not> shouldReplaceStackEntry env0 (fullStack 48 49) ?e (Some 100) False"
    by (rule fullStack_no_replace) simp_all
  have tl50: "tl (map plainEntry [0..<50]) = map plainEntry [1..<50]"
    by (simp add: map_tl [symmetric])
  have take49: "take 49 (map plainEntry [0..<50]) = map plainEntry [0..<49]"
    by (simp add: take_map)
  note t1 = push_at_limit_evicts_oldest [where env = env0 and st = "fullStack 49 48"
      and editor = ?e and selection = "Some 100" and forceReplace = False and e = ?e
      and ?st0.0 = ?r]
  note t2 = push_at_limit_evicts_oldest [where env = env0 and st = "fullStack 48 49"
      and editor = ?e and selection = "Some 100" and forceReplace = False and e = ?e
      and ?st0.0 = ?r]
  have a: "length (editorNavigationStack ?r) \<le> 50"
    using conjunct1 [OF t1] r by simp
  have b: "editorNavigationStack
     (doAddOrReplaceInEditorNavigationStack env0 (fullStack 49 48) ?e (Some 100) False) =
       map plainEntry [1..<50] @ [plainEntry 100] \<and>
     editorNavigationStackIndex
     (doAddOrReplaceInEditorNavigationStack env0 (fullStack 49 48) ?e (Some 100) False) = 49 \<and>
     lastEditorNavigationStackIndex
     (doAddOrReplaceInEditorNavigationStack env0 (fullStack 49 48) ?e (Some 100) False) = 47"
    using conjunct1 [OF conjunct2 [OF conjunct2 [OF conjunct2 [OF t1]]]] nr
    by (simp add: fullStack_fields plain_prefer tl50 plainEntry_def)
  have c: "editorNavigationStack
     (doAddOrReplaceInEditorNavigationStack env0 (fullStack 48 49) ?e (Some 100) False) =
       map plainEntry [0..<49] @ [plainEntry 100] \<and>
     editorNavigationStackIndex
     (doAddOrReplaceInEditorNavigationStack env0 (fullStack 48 49) ?e (Some 100) False) = 49 \<and>
     lastEditorNavigationStackIndex
     (doAddOrReplaceInEditorNavigationStack env0 (fullStack 48 49) ?e (Some 100) False) = 48"
    using conjunct2 [OF conjunct2 [OF conjunct2 [OF conjunct2 [OF t2]]]] nr2
    by (simp add: fullStack_fields plain_prefer take49 plainEntry_def)
  have d: "editorNavigationStack
     (doAddOrReplaceInEditorNavigationStack env0 (fullStack 49 48) ?e (Some 100) False) !
     nat (editorNavigationStackIndex
       (doAddOrReplaceInEditorNavigationStack env0 (fullStack 49 48) ?e (Some 100) False)) =
     plainEntry 100"
    using conjunct1 [OF conjunct2 [OF conjunct2 [OF t1]]] nr inv
    by (simp add: plain_prefer plainEntry_def)
  from r a inv inv2 b c d show ?thesis by simp
qed

end
